theory Spec2Isabelle
  imports Complex_Main "HOL-Library.Product_Lexorder" "HOL-Library.Multiset"
begin

section \<open>JavaScript values as the request handlers see them\<close>

text \<open>
  A request body is what \<open>express.json()\<close> parsed; a destructured field that the body
  does not have is \<open>undefined\<close>. Numbers of a JSON text are decimal literals, so they are
  rationals here; \<open>NaN\<close> only comes out of \<open>parseInt\<close>.
\<close>

datatype jv =
    JUndefined
  | JNull
  | JBool bool
  | JNum rat
  | JNaN
  | JStr string
  | JArr "jv list"
  | JObj "(string \<times> jv) list"

text \<open>\<open>!v\<close> is \<open>\<not> truthy v\<close>: the falsy values are undefined, null, false, 0, NaN and "".\<close>

fun truthy :: "jv \<Rightarrow> bool" where
  "truthy JUndefined = False"
| "truthy JNull = False"
| "truthy (JBool b) = b"
| "truthy (JNum n) = (n \<noteq> 0)"
| "truthy JNaN = False"
| "truthy (JStr s) = (s \<noteq> [])"
| "truthy (JArr _) = True"
| "truthy (JObj _) = True"

text \<open>
  Destructuring \<open>const { a, b } = req.body\<close>: the body is an object or an array
  (\<open>express.json()\<close> accepts nothing else), and a name it lacks reads as undefined.
\<close>

fun field :: "jv \<Rightarrow> string \<Rightarrow> jv" where
  "field (JObj kvs) k = (case map_of kvs k of Some v \<Rightarrow> v | None \<Rightarrow> JUndefined)"
| "field _ k = JUndefined"

text \<open>
  The member access \<open>p.year\<close> of the sales-plan loop: on null and undefined it throws a
  TypeError (\<open>None\<close>); the names read there (year, week, qty) are properties of no
  number, string, boolean or array, so on those the access gives undefined.
\<close>

fun member_of :: "jv \<Rightarrow> string \<Rightarrow> jv option" where
  "member_of JUndefined k = None"
| "member_of JNull k = None"
| "member_of v k = Some (field v k)"

fun isArray :: "jv \<Rightarrow> bool" where
  "isArray (JArr _) = True"
| "isArray _ = False"

text \<open>\<open>a || b\<close>\<close>

definition js_or :: "jv \<Rightarrow> jv \<Rightarrow> jv" where
  "js_or a b = (if truthy a then a else b)"

subsection \<open>\<open>parseInt(v, 10)\<close> and \<open>parseIntSafe\<close>\<close>

text \<open>
  A character is a code unit below 256. The white space \<open>parseInt\<close> skips is, in that
  range, the space, tab, line feed, vertical tab, form feed, carriage return and the
  no-break space.
\<close>

definition is_space :: "char \<Rightarrow> bool" where
  "is_space c =
     (c \<in> set [CHR '' '', CHR 0x09, CHR 0x0A, CHR 0x0B, CHR 0x0C, CHR 0x0D, CHR 0xA0])"

definition digit_of :: "char \<Rightarrow> nat option" where
  "digit_of c = map_of (zip ''0123456789'' [0, 1, 2, 3, 4, 5, 6, 7, 8, 9]) c"

definition is_digit :: "char \<Rightarrow> bool" where
  "is_digit c = (digit_of c \<noteq> None)"

fun digits_value :: "nat \<Rightarrow> string \<Rightarrow> nat" where
  "digits_value acc [] = acc"
| "digits_value acc (c # cs) =
     digits_value (10 * acc + (case digit_of c of Some d \<Rightarrow> d | None \<Rightarrow> 0)) cs"

text \<open>
  \<open>parseInt(s, 10)\<close> on a string: skip leading white space, read an optional sign, then the
  longest run of decimal digits; whatever follows the digits is ignored, and no digit at
  all gives NaN. (The result is an integer; the rounding of integers beyond \<open>2^53\<close> to a
  double is not modelled.)
\<close>

definition unsigned_part :: "string \<Rightarrow> string" where
  "unsigned_part s =
     (case dropWhile is_space s of
        [] \<Rightarrow> []
      | c # r \<Rightarrow> if c = CHR ''-'' \<or> c = CHR ''+'' then r else c # r)"

definition is_negative :: "string \<Rightarrow> bool" where
  "is_negative s = (case dropWhile is_space s of [] \<Rightarrow> False | c # r \<Rightarrow> c = CHR ''-'')"

definition parseInt :: "string \<Rightarrow> jv" where
  "parseInt s =
     (let ds = takeWhile is_digit (unsigned_part s)
      in if ds = [] then JNaN
         else JNum (of_int (if is_negative s then - int (digits_value 0 ds)
                            else int (digits_value 0 ds))))"

text \<open>
  \<open>const parseIntSafe = (v) => v === undefined || v === null || v === "" ? null : parseInt(v, 10)\<close>,
  applied to a query-string or route parameter: absent (\<open>None\<close>) or, given once, a
  string.
\<close>

definition parseIntSafe :: "string option \<Rightarrow> jv" where
  "parseIntSafe v =
     (case v of None \<Rightarrow> JNull | Some s \<Rightarrow> if s = [] then JNull else parseInt s)"

section \<open>The store\<close>

subsection \<open>Binding a JavaScript value to a SQL parameter\<close>

text \<open>
  \<open>request.input(name, type, value)\<close> hands the value to the database driver, which is
  not part of this repository. What the driver makes of a value is therefore a parameter
  of every handler: it throws (the handler's \<open>catch\<close> answers 500), binds NULL, or binds a
  value of the SQL type.
\<close>

datatype 'a bound = Throws | Null | Val 'a

datatype sqltype = sql_Int | sql_SmallInt | sql_TinyInt

fun nullable :: "'a bound \<Rightarrow> 'a option" where
  "nullable (Val x) = Some x"
| "nullable _ = None"

text \<open>
  \<open>int_param\<close> is the binding to \<open>sql.Int\<close>, \<open>sql.SmallInt\<close> and \<open>sql.TinyInt\<close>, and
  \<open>dec_param\<close> the binding to \<open>sql.Decimal(18, 3)\<close>.
\<close>

record driver =
  int_param :: "sqltype \<Rightarrow> jv \<Rightarrow> int bound"
  dec_param :: "jv \<Rightarrow> rat bound"

subsection \<open>Tables (schema.sql)\<close>

text \<open>
  The tables with the columns that the modelled statements read or write. ItemType is
  \<open>'P'\<close> for a product and \<open>'M'\<close> for a material; a DECIMAL(18,3) quantity is a rational;
  of Products only the ids are kept, for the foreign key of SalesPlans.
\<close>

datatype item_type = Product | Material

record opening_balance =
  ob_ItemType :: item_type
  ob_ItemId :: int
  ob_StartYear :: int
  ob_StartWeek :: int
  ob_BalanceQty :: rat

record sales_plan =
  sp_ProductId :: int
  sp_PlanYear :: int
  sp_PlanWeek :: int
  sp_ShipQty :: rat

record production_order =
  po_ProductId :: int
  po_Quantity :: rat
  po_PlanYear :: int
  po_PlanWeek :: int
  po_Status :: string

record purchase_order =
  pu_PurchaseOrderId :: int
  pu_Status :: string

record purchase_order_line =
  pl_PurchaseOrderId :: int
  pl_MaterialId :: int
  pl_Quantity :: rat
  pl_EtaYear :: int
  pl_EtaWeek :: int

record db =
  Products :: "int list"
  OpeningBalances :: "opening_balance list"
  SalesPlans :: "sales_plan list"
  ProductionOrders :: "production_order list"
  PurchaseOrders :: "purchase_order list"
  PurchaseOrderLines :: "purchase_order_line list"

text \<open>
  \<open>getPool()\<close> resolves to the connection pool or rejects; a handler gets the store as
  \<open>Some db\<close> or, when the connection fails, as \<open>None\<close>.
\<close>

type_synonym store = "db option"

text \<open>
  A response: \<open>res.json(x)\<close> is \<open>Ok x\<close> (status 200), and
  \<open>res.status(c).json({ error: m })\<close> is \<open>Err c m\<close>.
\<close>

datatype 'a response = Ok 'a | Err nat string

subsection \<open>SQL text shared by the queries\<close>

text \<open>\<open>UPPER\<close> on the letters a to z; every other character stays.\<close>

definition upper_char :: "char \<Rightarrow> char" where
  "upper_char c =
     (case map_of (zip ''abcdefghijklmnopqrstuvwxyz'' ''ABCDEFGHIJKLMNOPQRSTUVWXYZ'') c of
        Some u \<Rightarrow> u
      | None \<Rightarrow> c)"

definition upper :: "string \<Rightarrow> string" where
  "upper s = map upper_char s"

text \<open>
  \<open>(Year > @fromYear OR (Year = @fromYear AND Week >= @fromWeek))
   AND (Year < @toYear OR (Year = @toYear AND Week <= @toWeek))\<close>
\<close>

definition week_between :: "int \<Rightarrow> int \<Rightarrow> int \<Rightarrow> int \<Rightarrow> int \<Rightarrow> int \<Rightarrow> bool" where
  "week_between y w fromYear fromWeek toYear toWeek =
     ((y > fromYear \<or> (y = fromYear \<and> w \<ge> fromWeek))
      \<and> (y < toYear \<or> (y = toYear \<and> w \<le> toWeek)))"

text \<open>\<open>(@id IS NULL OR Id = @id)\<close>\<close>

definition id_filter :: "int option \<Rightarrow> int \<Rightarrow> bool" where
  "id_filter p i = (case p of None \<Rightarrow> True | Some j \<Rightarrow> i = j)"

text \<open>
  \<open>SELECT k, SUM(q) ... GROUP BY k\<close> over rows already filtered and projected to
  (key, quantity): one output row per key that occurs, with the sum of its quantities.
\<close>

definition group_sum :: "('k \<times> rat) list \<Rightarrow> ('k \<times> rat) list" where
  "group_sum rows =
     map (\<lambda>k. (k, sum_list (map snd (filter (\<lambda>r. fst r = k) rows)))) (remdups (map fst rows))"

text \<open>
  The four range parameters after binding: a parameter the driver refuses throws, and a
  NULL one makes every comparison of the range unknown, so that no row is selected.
\<close>

datatype range_params = Range_Throws | Range_Null | Range int int int int

definition bind_range :: "driver \<Rightarrow> jv \<Rightarrow> jv \<Rightarrow> jv \<Rightarrow> jv \<Rightarrow> range_params" where
  "bind_range drv fromYear fromWeek toYear toWeek =
     (case (int_param drv sql_Int fromYear, int_param drv sql_Int fromWeek,
            int_param drv sql_Int toYear, int_param drv sql_Int toWeek) of
        (Val fy, Val fw, Val ty, Val tw) \<Rightarrow> Range fy fw ty tw
      | (a, b, c, d) \<Rightarrow>
          if a = Throws \<or> b = Throws \<or> c = Throws \<or> d = Throws then Range_Throws
          else Range_Null)"

section \<open>GET /api/production\<close>

text \<open>The query string of a request to one of the three week-range endpoints.\<close>

record query =
  q_productId :: "string option"
  q_materialId :: "string option"
  q_fromYear :: "string option"
  q_fromWeek :: "string option"
  q_toYear :: "string option"
  q_toWeek :: "string option"

text \<open>
  \<open>SELECT ProductId, PlanYear, PlanWeek, SUM(Quantity) FROM ProductionOrders
   WHERE UPPER(Status) IN ('ACTIVE','COMPLETE') AND <range> AND (@productId IS NULL OR ProductId = @productId)
   GROUP BY ProductId, PlanYear, PlanWeek ORDER BY PlanYear, PlanWeek\<close>.
  A result row is ((productId, year, week), qty). The rows are sorted by (year, week);
  SQL leaves the order of the products within one week open, and here they keep the order
  in which the grouping met them.
\<close>

definition production_where ::
  "int option \<Rightarrow> int \<Rightarrow> int \<Rightarrow> int \<Rightarrow> int \<Rightarrow> production_order \<Rightarrow> bool" where
  "production_where productId fromYear fromWeek toYear toWeek r =
     ((upper (po_Status r) = ''ACTIVE'' \<or> upper (po_Status r) = ''COMPLETE'')
      \<and> week_between (po_PlanYear r) (po_PlanWeek r) fromYear fromWeek toYear toWeek
      \<and> id_filter productId (po_ProductId r))"

definition production_key :: "production_order \<Rightarrow> int \<times> int \<times> int" where
  "production_key r = (po_ProductId r, po_PlanYear r, po_PlanWeek r)"

definition production_sql ::
  "db \<Rightarrow> int option \<Rightarrow> int \<Rightarrow> int \<Rightarrow> int \<Rightarrow> int \<Rightarrow> ((int \<times> int \<times> int) \<times> rat) list" where
  "production_sql d productId fromYear fromWeek toYear toWeek =
     sort_key (\<lambda>((p, y, w), q). (y, w))
       (group_sum
          (map (\<lambda>r. (production_key r, po_Quantity r))
             (filter (production_where productId fromYear fromWeek toYear toWeek)
                (ProductionOrders d))))"

definition api_production ::
  "driver \<Rightarrow> store \<Rightarrow> query \<Rightarrow> ((int \<times> int \<times> int) \<times> rat) list response" where
  "api_production drv st q =
     (let productId = parseIntSafe (q_productId q);
          fromYear = parseIntSafe (q_fromYear q);
          fromWeek = parseIntSafe (q_fromWeek q);
          toYear = parseIntSafe (q_toYear q);
          toWeek = parseIntSafe (q_toWeek q)
      in if \<not> truthy fromYear \<or> \<not> truthy fromWeek \<or> \<not> truthy toYear \<or> \<not> truthy toWeek
         then Err 400 ''fromYear/fromWeek/toYear/toWeek required''
         else
           (case st of
              None \<Rightarrow> Err 500 ''Failed to fetch production''
            | Some d \<Rightarrow>
                (case (int_param drv sql_Int productId,
                       bind_range drv fromYear fromWeek toYear toWeek) of
                   (Throws, _) \<Rightarrow> Err 500 ''Failed to fetch production''
                 | (_, Range_Throws) \<Rightarrow> Err 500 ''Failed to fetch production''
                 | (_, Range_Null) \<Rightarrow> Ok []
                 | (p, Range fy fw ty tw) \<Rightarrow> Ok (production_sql d (nullable p) fy fw ty tw))))"

section \<open>GET /api/purchase\<close>

text \<open>
  \<open>SELECT pol.MaterialId, pol.EtaYear, pol.EtaWeek, SUM(pol.Quantity)
   FROM PurchaseOrderLines pol JOIN PurchaseOrders po ON po.PurchaseOrderId = pol.PurchaseOrderId
   WHERE <status test> AND <range> AND (@materialId IS NULL OR pol.MaterialId = @materialId)
   GROUP BY pol.MaterialId, pol.EtaYear, pol.EtaWeek\<close>.
  The two server files differ in the status test only, which is the first argument here.
  A result row is ((materialId, year, week), qty).
\<close>

definition purchase_join :: "db \<Rightarrow> (purchase_order_line \<times> purchase_order) list" where
  "purchase_join d =
     concat (map (\<lambda>pol. map (\<lambda>po. (pol, po))
                    (filter (\<lambda>po. pu_PurchaseOrderId po = pl_PurchaseOrderId pol) (PurchaseOrders d)))
               (PurchaseOrderLines d))"

definition purchase_where ::
  "(string \<Rightarrow> bool) \<Rightarrow> int option \<Rightarrow> int \<Rightarrow> int \<Rightarrow> int \<Rightarrow> int
     \<Rightarrow> purchase_order_line \<times> purchase_order \<Rightarrow> bool" where
  "purchase_where status_test materialId fromYear fromWeek toYear toWeek r =
     (status_test (pu_Status (snd r))
      \<and> week_between (pl_EtaYear (fst r)) (pl_EtaWeek (fst r)) fromYear fromWeek toYear toWeek
      \<and> id_filter materialId (pl_MaterialId (fst r)))"

definition purchase_key :: "purchase_order_line \<Rightarrow> int \<times> int \<times> int" where
  "purchase_key l = (pl_MaterialId l, pl_EtaYear l, pl_EtaWeek l)"

definition purchase_sql ::
  "(string \<Rightarrow> bool) \<Rightarrow> db \<Rightarrow> int option \<Rightarrow> int \<Rightarrow> int \<Rightarrow> int \<Rightarrow> int
     \<Rightarrow> ((int \<times> int \<times> int) \<times> rat) list" where
  "purchase_sql status_test d materialId fromYear fromWeek toYear toWeek =
     group_sum
       (map (\<lambda>r. (purchase_key (fst r), pl_Quantity (fst r)))
          (filter (purchase_where status_test materialId fromYear fromWeek toYear toWeek)
             (purchase_join d)))"

definition purchase_handler ::
  "(string \<Rightarrow> bool) \<Rightarrow> driver \<Rightarrow> store \<Rightarrow> query \<Rightarrow> ((int \<times> int \<times> int) \<times> rat) list response" where
  "purchase_handler status_test drv st q =
     (let materialId = parseIntSafe (q_materialId q);
          fromYear = parseIntSafe (q_fromYear q);
          fromWeek = parseIntSafe (q_fromWeek q);
          toYear = parseIntSafe (q_toYear q);
          toWeek = parseIntSafe (q_toWeek q)
      in if \<not> truthy fromYear \<or> \<not> truthy fromWeek \<or> \<not> truthy toYear \<or> \<not> truthy toWeek
         then Err 400 ''fromYear/fromWeek/toYear/toWeek required''
         else
           (case st of
              None \<Rightarrow> Err 500 ''Failed to fetch purchase''
            | Some d \<Rightarrow>
                (case (int_param drv sql_Int materialId,
                       bind_range drv fromYear fromWeek toYear toWeek) of
                   (Throws, _) \<Rightarrow> Err 500 ''Failed to fetch purchase''
                 | (_, Range_Throws) \<Rightarrow> Err 500 ''Failed to fetch purchase''
                 | (_, Range_Null) \<Rightarrow> Ok []
                 | (m, Range fy fw ty tw) \<Rightarrow>
                     Ok (purchase_sql status_test d (nullable m) fy fw ty tw))))"

text \<open>
  The comparison \<open>=\<close> of two strings in a query follows the collation of the column.
  schema.sql creates the database and its columns without a COLLATE clause, so the
  collation is the server's default, which ignores case: two strings are equal when they
  are equal after \<open>UPPER\<close>. (The padding of trailing blanks is not modelled.) Where one side
  is \<open>UPPER\<close> of a column and the other an upper-case literal, as in the status tests of the
  production query and of the second server file's purchase query, this is equality of
  the uppercased strings.
\<close>

definition sql_eq :: "string \<Rightarrow> string \<Rightarrow> bool" where
  "sql_eq a b = (upper a = upper b)"


definition api_purchase ::
  "driver \<Rightarrow> store \<Rightarrow> query \<Rightarrow> ((int \<times> int \<times> int) \<times> rat) list response" where
  "api_purchase = purchase_handler (\<lambda>s. upper s = ''CONFIRM'')"


section \<open>GET /api/sales-plan\<close>

text \<open>
  \<open>SELECT PlanYear, PlanWeek, ShipQty FROM SalesPlans WHERE ProductId = @productId AND <range>\<close>;
  a result row is ((year, week), qty). A NULL \<open>@productId\<close> equals no product id.
\<close>

definition sales_plan_sql ::
  "db \<Rightarrow> int \<Rightarrow> int \<Rightarrow> int \<Rightarrow> int \<Rightarrow> int \<Rightarrow> ((int \<times> int) \<times> rat) list" where
  "sales_plan_sql d productId fromYear fromWeek toYear toWeek =
     map (\<lambda>r. ((sp_PlanYear r, sp_PlanWeek r), sp_ShipQty r))
       (filter (\<lambda>r. sp_ProductId r = productId
                   \<and> week_between (sp_PlanYear r) (sp_PlanWeek r) fromYear fromWeek toYear toWeek)
          (SalesPlans d))"

definition api_sales_plan ::
  "driver \<Rightarrow> store \<Rightarrow> query \<Rightarrow> ((int \<times> int) \<times> rat) list response" where
  "api_sales_plan drv st q =
     (let productId = parseIntSafe (q_productId q);
          fromYear = parseIntSafe (q_fromYear q);
          fromWeek = parseIntSafe (q_fromWeek q);
          toYear = parseIntSafe (q_toYear q);
          toWeek = parseIntSafe (q_toWeek q)
      in if \<not> truthy productId \<or> \<not> truthy fromYear \<or> \<not> truthy fromWeek
            \<or> \<not> truthy toYear \<or> \<not> truthy toWeek
         then Err 400 ''productId/from/to required''
         else
           (case st of
              None \<Rightarrow> Err 500 ''Failed to fetch sales plan''
            | Some d \<Rightarrow>
                (case (int_param drv sql_Int productId,
                       bind_range drv fromYear fromWeek toYear toWeek) of
                   (Throws, _) \<Rightarrow> Err 500 ''Failed to fetch sales plan''
                 | (_, Range_Throws) \<Rightarrow> Err 500 ''Failed to fetch sales plan''
                 | (Val p, Range fy fw ty tw) \<Rightarrow> Ok (sales_plan_sql d p fy fw ty tw)
                 | (_, _) \<Rightarrow> Ok [])))"

section \<open>Opening balances\<close>

subsection \<open>GET /api/opening-balance/:type/:id\<close>

text \<open>
  \<open>res.json(result.recordset[0] || null)\<close>: the first selected row as (year, week, balance),
  or null (\<open>None\<close>) when no row is selected.
\<close>

definition api_get_opening_balance ::
  "driver \<Rightarrow> store \<Rightarrow> string \<Rightarrow> string \<Rightarrow> (int \<times> int \<times> rat) option response" where
  "api_get_opening_balance drv st type ident =
     (let itemType = (if type = ''product'' then Product else Material);
          itemId = parseIntSafe (Some ident)
      in if \<not> truthy itemId then Err 400 ''Invalid id''
         else
           (case st of
              None \<Rightarrow> Err 500 ''Failed to fetch opening balance''
            | Some d \<Rightarrow>
                (case int_param drv sql_Int itemId of
                   Throws \<Rightarrow> Err 500 ''Failed to fetch opening balance''
                 | Null \<Rightarrow> Ok None
                 | Val i \<Rightarrow>
                     (case filter (\<lambda>r. ob_ItemType r = itemType \<and> ob_ItemId r = i)
                             (OpeningBalances d) of
                        [] \<Rightarrow> Ok None
                      | r # _ \<Rightarrow> Ok (Some (ob_StartYear r, ob_StartWeek r, ob_BalanceQty r))))))"

subsection \<open>PUT /api/opening-balance\<close>

text \<open>The range of an integer column type, and the \<open>CHECK (Week >= 1 AND Week <= 53)\<close> of the schema.\<close>

fun fits :: "sqltype \<Rightarrow> int \<Rightarrow> bool" where
  "fits sql_Int n = (- 2147483648 \<le> n \<and> n \<le> 2147483647)"
| "fits sql_SmallInt n = (- 32768 \<le> n \<and> n \<le> 32767)"
| "fits sql_TinyInt n = (0 \<le> n \<and> n \<le> 255)"

definition week_check :: "int \<Rightarrow> bool" where
  "week_check w = (w \<ge> 1 \<and> w \<le> 53)"

definition ob_key :: "opening_balance \<Rightarrow> item_type \<times> int" where
  "ob_key r = (ob_ItemType r, ob_ItemId r)"

text \<open>
  \<open>MERGE OpeningBalances AS target USING (SELECT @itemType, @itemId) AS src
   ON target.ItemType = src.ItemType AND target.ItemId = src.ItemId
   WHEN MATCHED THEN UPDATE SET StartYear, StartWeek, BalanceQty
   WHEN NOT MATCHED THEN INSERT (ItemType, ItemId, StartYear, StartWeek, BalanceQty)\<close>.
  The statement fails as a whole (\<open>None\<close>) when a value does not fit its column or breaks
  the week check.
\<close>

definition merge_opening_balance ::
  "opening_balance list \<Rightarrow> opening_balance \<Rightarrow> opening_balance list option" where
  "merge_opening_balance rows new =
     (if \<not> (fits sql_Int (ob_ItemId new) \<and> fits sql_SmallInt (ob_StartYear new)
             \<and> fits sql_TinyInt (ob_StartWeek new) \<and> week_check (ob_StartWeek new))
      then None
      else if \<exists>r \<in> set rows. ob_key r = ob_key new
      then Some (map (\<lambda>r. if ob_key r = ob_key new
                           then r\<lparr>ob_StartYear := ob_StartYear new,
                                  ob_StartWeek := ob_StartWeek new,
                                  ob_BalanceQty := ob_BalanceQty new\<rparr>
                           else r) rows)
      else Some (rows @ [new]))"

definition put_opening_balance :: "driver \<Rightarrow> store \<Rightarrow> jv \<Rightarrow> store \<times> unit response" where
  "put_opening_balance drv st body =
     (let itemType = field body ''itemType'';
          itemId = field body ''itemId'';
          startYear = field body ''startYear'';
          startWeek = field body ''startWeek'';
          balanceQty = field body ''balanceQty''
      in if \<not> (itemType = JStr ''P'' \<or> itemType = JStr ''M'')
         then (st, Err 400 ''itemType must be P or M'')
         else if \<not> truthy itemId \<or> \<not> truthy startYear \<or> \<not> truthy startWeek
                 \<or> balanceQty = JUndefined
         then (st, Err 400 ''Missing fields'')
         else
           (case st of
              None \<Rightarrow> (st, Err 500 ''Failed to upsert opening balance'')
            | Some d \<Rightarrow>
                (case (int_param drv sql_Int itemId, int_param drv sql_SmallInt startYear,
                       int_param drv sql_TinyInt startWeek, dec_param drv balanceQty) of
                   (Val i, Val y, Val w, Val b) \<Rightarrow>
                     (case merge_opening_balance (OpeningBalances d)
                             \<lparr>ob_ItemType = (if itemType = JStr ''P'' then Product else Material),
                              ob_ItemId = i, ob_StartYear = y, ob_StartWeek = w,
                              ob_BalanceQty = b\<rparr> of
                        None \<Rightarrow> (st, Err 500 ''Failed to upsert opening balance'')
                      | Some rows \<Rightarrow> (Some (d\<lparr>OpeningBalances := rows\<rparr>), Ok ()))
                 | _ \<Rightarrow> (st, Err 500 ''Failed to upsert opening balance''))))"

text \<open>A sequence of PUT /api/opening-balance requests, one after the other.\<close>

fun put_opening_balances :: "driver \<Rightarrow> store \<Rightarrow> jv list \<Rightarrow> store" where
  "put_opening_balances drv st [] = st"
| "put_opening_balances drv st (b # bs) =
     put_opening_balances drv (fst (put_opening_balance drv st b)) bs"

text \<open>\<open>UNIQUE(ItemType, ItemId)\<close>: no two rows of OpeningBalances share a key.\<close>

definition single_opening_balance :: "store \<Rightarrow> bool" where
  "single_opening_balance st =
     (case st of None \<Rightarrow> True | Some d \<Rightarrow> distinct (map ob_key (OpeningBalances d)))"

section \<open>PUT /api/sales-plan\<close>

definition sp_key :: "sales_plan \<Rightarrow> int \<times> int \<times> int" where
  "sp_key r = (sp_ProductId r, sp_PlanYear r, sp_PlanWeek r)"

text \<open>
  \<open>MERGE SalesPlans AS target USING (SELECT @productId, @year, @week) AS src ON <the three are equal>
   WHEN MATCHED THEN UPDATE SET ShipQty=@qty
   WHEN NOT MATCHED THEN INSERT (ProductId, PlanYear, PlanWeek, ShipQty)\<close>.
  An insert fails (\<open>None\<close>) when the product does not exist (the foreign key), the year
  does not fit SMALLINT or the week breaks the week check.
\<close>

definition merge_sales_plan :: "int list \<Rightarrow> sales_plan list \<Rightarrow> sales_plan \<Rightarrow> sales_plan list option" where
  "merge_sales_plan products rows new =
     (if \<exists>r \<in> set rows. sp_key r = sp_key new
      then Some (map (\<lambda>r. if sp_key r = sp_key new then r\<lparr>sp_ShipQty := sp_ShipQty new\<rparr> else r) rows)
      else if sp_ProductId new \<in> set products \<and> fits sql_SmallInt (sp_PlanYear new)
              \<and> fits sql_TinyInt (sp_PlanWeek new) \<and> week_check (sp_PlanWeek new)
      then Some (rows @ [new])
      else None)"

text \<open>
  One turn of \<open>for (const p of plans)\<close>: the four parameters are bound (the quantity as
  \<open>p.qty || 0\<close>), which gives the row the MERGE is to store, and the MERGE runs. \<open>None\<close> is
  a throw: \<open>p\<close> is null, the driver refuses a value, a NULL reaches a NOT NULL column, or
  the MERGE fails.
\<close>

definition qty_param :: "jv \<Rightarrow> jv" where
  "qty_param qty = js_or qty (JNum 0)"

definition plan_row :: "driver \<Rightarrow> jv \<Rightarrow> jv \<Rightarrow> sales_plan option" where
  "plan_row drv productId p =
     (case (member_of p ''year'', member_of p ''week'', member_of p ''qty'') of
        (Some year, Some week, Some qty) \<Rightarrow>
          (case (int_param drv sql_Int productId, int_param drv sql_Int year,
                 int_param drv sql_Int week, dec_param drv (qty_param qty)) of
             (Val i, Val y, Val w, Val s) \<Rightarrow>
               Some \<lparr>sp_ProductId = i, sp_PlanYear = y, sp_PlanWeek = w, sp_ShipQty = s\<rparr>
           | _ \<Rightarrow> None)
      | _ \<Rightarrow> None)"

definition upsert_plan :: "driver \<Rightarrow> int list \<Rightarrow> jv \<Rightarrow> sales_plan list \<Rightarrow> jv \<Rightarrow> sales_plan list option" where
  "upsert_plan drv products productId rows p =
     (case plan_row drv productId p of
        None \<Rightarrow> None
      | Some new \<Rightarrow> merge_sales_plan products rows new)"

fun upsert_plans :: "driver \<Rightarrow> int list \<Rightarrow> jv \<Rightarrow> sales_plan list \<Rightarrow> jv list \<Rightarrow> sales_plan list option" where
  "upsert_plans drv products productId rows [] = Some rows"
| "upsert_plans drv products productId rows (p # ps) =
     (case upsert_plan drv products productId rows p of
        None \<Rightarrow> None
      | Some rows' \<Rightarrow> upsert_plans drv products productId rows' ps)"

fun elements :: "jv \<Rightarrow> jv list" where
  "elements (JArr xs) = xs"
| "elements _ = []"

text \<open>
  The handler: the loop works on the transaction's copy of SalesPlans; \<open>commit\<close> makes it
  the table, and every throw (of \<open>getPool\<close> or \<open>begin\<close>, when there is no connection; of
  the loop; or of \<open>commit\<close> itself, when \<open>commits\<close> is false) ends in \<open>catch\<close>, which rolls
  back, so that the table is the one before.
\<close>

definition put_sales_plan :: "driver \<Rightarrow> bool \<Rightarrow> store \<Rightarrow> jv \<Rightarrow> store \<times> unit response" where
  "put_sales_plan drv commits st body =
     (let productId = field body ''productId'';
          plans = field body ''plans''
      in if \<not> truthy productId \<or> \<not> isArray plans
         then (st, Err 400 ''productId and plans[] required'')
         else
           (case st of
              None \<Rightarrow> (st, Err 500 ''Failed to upsert sales plan'')
            | Some d \<Rightarrow>
                (case upsert_plans drv (Products d) productId (SalesPlans d) (elements plans) of
                   None \<Rightarrow> (st, Err 500 ''Failed to upsert sales plan'')
                 | Some rows \<Rightarrow>
                     if commits then (Some (d\<lparr>SalesPlans := rows\<rparr>), Ok ())
                     else (st, Err 500 ''Failed to upsert sales plan''))))"

text \<open>
  A required parameter of a request that reads as the non-zero integer \<open>n\<close>:
  \<open>parseIntSafe\<close> gives \<open>n\<close>, and the driver binds that number as it is.
\<close>

definition reads_as :: "driver \<Rightarrow> string option \<Rightarrow> int \<Rightarrow> bool" where
  "reads_as drv v n =
     (parseIntSafe v = JNum (of_int n) \<and> n \<noteq> 0 \<and> int_param drv sql_Int (JNum (of_int n)) = Val n)"

text \<open>A production order counts when its status uppercases to ACTIVE or COMPLETE.\<close>

definition counted :: "production_order \<Rightarrow> bool" where
  "counted r = (upper (po_Status r) = ''ACTIVE'' \<or> upper (po_Status r) = ''COMPLETE'')"

section \<open>The balance projection\<close>

text \<open>
  Modelled from the spec: the WeekKey of section 3, a pair (year, week) ordered by year
  and then week. The projection is computed by the page in the browser, which is not
  among the source files; sections 3 and 4 of the spec describe it.
\<close>

type_synonym week_key = "int \<times> int"

text \<open>
  Modelled from the spec: a week number lies in 1..53 (section 3); no other calendar
  rule is applied.
\<close>

definition valid_week :: "week_key \<Rightarrow> bool" where
  "valid_week k = (1 \<le> snd k \<and> snd k \<le> 53)"

text \<open>
  Modelled from the spec: the week after a week, and the week before it; the year changes
  after week 53 (section 4.1: a week is an integer tag within a year, and the range
  crosses year boundaries as a lexicographic key).
\<close>

definition next_week :: "week_key \<Rightarrow> week_key" where
  "next_week k = (if snd k \<ge> 53 then (fst k + 1, 1) else (fst k, snd k + 1))"

definition prev_week :: "week_key \<Rightarrow> week_key" where
  "prev_week k = (if snd k \<le> 1 then (fst k - 1, 53) else (fst k, snd k - 1))"

text \<open>
  Modelled from the spec: a bound on the number of weeks from \<open>w\<close> up to \<open>to_wk\<close>, which
  decreases with every step of the enumeration (section 4.1: the sequence is finite).
\<close>

definition weeks_left :: "week_key \<Rightarrow> week_key \<Rightarrow> nat" where
  "weeks_left w to_wk = nat (53 * fst to_wk + max (snd to_wk) 0 + 1 - (53 * fst w + min (snd w) 53))"

text \<open>
  Modelled from the spec: \<open>enumerateWeeks(from, to)\<close> of section 4.1, the weeks from
  \<open>from\<close> to \<open>to\<close> in ascending order, empty when \<open>from > to\<close>.
\<close>

function enumerateWeeks :: "week_key \<Rightarrow> week_key \<Rightarrow> week_key list" where
  "enumerateWeeks from_wk to_wk =
     (if to_wk < from_wk then [] else from_wk # enumerateWeeks (next_week from_wk) to_wk)"
  by pat_completeness auto
termination
  by (relation "measure (\<lambda>(w, to_wk). weeks_left w to_wk)")
     (auto simp: weeks_left_def next_week_def)

declare enumerateWeeks.simps [simp del]

text \<open>
  Modelled from the spec: a movement series, the quantity of each week (absence of a row
  for a week is zero movement, section 3).
\<close>

type_synonym flow = "week_key \<Rightarrow> rat"

text \<open>
  Modelled from the spec: the balance of one week in the state machine of section 4.5,
  from the balance of the week before: zero before the anchor or without an anchor, the
  opening quantity in the anchor week, and the previous balance minus outflow plus inflow
  after it.
\<close>

definition step :: "(week_key \<times> rat) option \<Rightarrow> flow \<Rightarrow> flow \<Rightarrow> rat \<Rightarrow> week_key \<Rightarrow> rat" where
  "step anchor outflow inflow prev w =
     (case anchor of
        None \<Rightarrow> 0
      | Some (a, openingQty) \<Rightarrow>
          if w < a then 0
          else if w = a then openingQty
          else prev - outflow w + inflow w)"

text \<open>
  Modelled from the spec: the single pass of section 4.5 over the consecutive weeks from
  \<open>w\<close> to \<open>to_wk\<close>, carrying the balance of the week before.
\<close>

function walk ::
  "(week_key \<times> rat) option \<Rightarrow> flow \<Rightarrow> flow \<Rightarrow> rat \<Rightarrow> week_key \<Rightarrow> week_key
     \<Rightarrow> (week_key \<times> rat) list" where
  "walk anchor outflow inflow prev w to_wk =
     (if to_wk < w then []
      else (w, step anchor outflow inflow prev w)
           # walk anchor outflow inflow (step anchor outflow inflow prev w) (next_week w) to_wk)"
  by pat_completeness auto
termination
  by (relation "measure (\<lambda>(anchor, outflow, inflow, prev, w, to_wk). weeks_left w to_wk)")
     (auto simp: weeks_left_def next_week_def)

declare walk.simps [simp del]

text \<open>
  Modelled from the spec: the week the pass starts from. When the anchor lies before the
  requested range the pass still starts at the anchor (section 4.5: compute
  consecutively from the anchor and return only the slice requested).
\<close>

definition walk_start :: "(week_key \<times> rat) option \<Rightarrow> week_key \<Rightarrow> week_key" where
  "walk_start anchor from_wk = (case anchor of None \<Rightarrow> from_wk | Some (a, q) \<Rightarrow> min a from_wk)"

text \<open>
  Modelled from the spec: the weeks and balances of the whole pass.
\<close>

definition series ::
  "(week_key \<times> rat) option \<Rightarrow> flow \<Rightarrow> flow \<Rightarrow> week_key \<Rightarrow> week_key \<Rightarrow> (week_key \<times> rat) list" where
  "series anchor outflow inflow from_wk to_wk =
     walk anchor outflow inflow 0 (walk_start anchor from_wk) to_wk"

text \<open>
  Modelled from the spec: the balance a series holds for a week, and zero for a week it
  does not hold (absence is zero, never an error; section 4.5, failure semantics).
\<close>

definition lookup :: "(week_key \<times> rat) list \<Rightarrow> week_key \<Rightarrow> rat" where
  "lookup xs w = (case map_of xs w of Some b \<Rightarrow> b | None \<Rightarrow> 0)"

text \<open>
  Modelled from the spec: \<open>balance(w)\<close> of section 4.5, the balance the walk computed for
  week \<open>w\<close>, whether or not \<open>w\<close> is in the slice that is returned.
\<close>

definition balance ::
  "(week_key \<times> rat) option \<Rightarrow> flow \<Rightarrow> flow \<Rightarrow> week_key \<Rightarrow> week_key \<Rightarrow> week_key \<Rightarrow> rat" where
  "balance anchor outflow inflow from_wk to_wk w =
     lookup (series anchor outflow inflow from_wk to_wk) w"

text \<open>
  Modelled from the spec: the output of the Balance Projector, the (week, balance)
  entries of the requested range.
\<close>

definition project ::
  "(week_key \<times> rat) option \<Rightarrow> flow \<Rightarrow> flow \<Rightarrow> week_key \<Rightarrow> week_key \<Rightarrow> (week_key \<times> rat) list" where
  "project anchor outflow inflow from_wk to_wk =
     filter (\<lambda>(w, b). from_wk \<le> w) (series anchor outflow inflow from_wk to_wk)"

text \<open>
  Modelled from the spec: the Ledger Aggregator's lookup (section 4.2), the summed
  quantity at a key, zero when the key has no row.
\<close>

definition qty_at :: "('k \<times> rat) list \<Rightarrow> 'k \<Rightarrow> rat" where
  "qty_at rows k = sum_list (map snd (filter (\<lambda>r. fst r = k) rows))"

text \<open>
  Modelled from the spec: what the projection of one product and its materials reads,
  the rows of GET /api/sales-plan, GET /api/production and GET /api/purchase, and the BOM
  lines ((productId, materialId), consumePerUnit).
\<close>

record ledger =
  shipRows :: "((int \<times> int) \<times> rat) list"
  productionRows :: "((int \<times> int \<times> int) \<times> rat) list"
  purchaseRows :: "((int \<times> int \<times> int) \<times> rat) list"
  bomLines :: "((int \<times> int) \<times> rat) list"

text \<open>
  Modelled from the spec: the flows of section 4.5. For a product the outflow is the ship
  quantity and the inflow the production quantity; for a material the outflow is the
  consumption derived through the BOM (production quantity times consumePerUnit, zero
  without a BOM line; section 4.3) and the inflow the confirmed purchase quantity.
\<close>

definition shipQty :: "ledger \<Rightarrow> flow" where
  "shipQty L w = qty_at (shipRows L) w"

definition productionQty :: "ledger \<Rightarrow> int \<Rightarrow> flow" where
  "productionQty L productId w = qty_at (productionRows L) (productId, fst w, snd w)"

definition consumePerUnit :: "ledger \<Rightarrow> int \<Rightarrow> int \<Rightarrow> rat" where
  "consumePerUnit L productId materialId =
     (case map_of (bomLines L) (productId, materialId) of Some c \<Rightarrow> c | None \<Rightarrow> 0)"

definition bomDerivedConsumption :: "ledger \<Rightarrow> int \<Rightarrow> int \<Rightarrow> flow" where
  "bomDerivedConsumption L productId materialId w =
     productionQty L productId w * consumePerUnit L productId materialId"

definition confirmedPurchaseQty :: "ledger \<Rightarrow> int \<Rightarrow> flow" where
  "confirmedPurchaseQty L materialId w = qty_at (purchaseRows L) (materialId, fst w, snd w)"

text \<open>
  Modelled from the spec: the balance of a product and of a material of that product.
\<close>

definition product_balance ::
  "ledger \<Rightarrow> int \<Rightarrow> (week_key \<times> rat) option \<Rightarrow> week_key \<Rightarrow> week_key \<Rightarrow> week_key \<Rightarrow> rat" where
  "product_balance L productId anchor =
     balance anchor (shipQty L) (productionQty L productId)"

definition material_balance ::
  "ledger \<Rightarrow> int \<Rightarrow> int \<Rightarrow> (week_key \<times> rat) option \<Rightarrow> week_key \<Rightarrow> week_key \<Rightarrow> week_key \<Rightarrow> rat" where
  "material_balance L productId materialId anchor =
     balance anchor (bomDerivedConsumption L productId materialId) (confirmedPurchaseQty L materialId)"

text \<open>
  Modelled from the spec: the projected series of a product and of a material.
\<close>

definition product_projection ::
  "ledger \<Rightarrow> int \<Rightarrow> (week_key \<times> rat) option \<Rightarrow> week_key \<Rightarrow> week_key \<Rightarrow> (week_key \<times> rat) list" where
  "product_projection L productId anchor =
     project anchor (shipQty L) (productionQty L productId)"

definition material_projection ::
  "ledger \<Rightarrow> int \<Rightarrow> int \<Rightarrow> (week_key \<times> rat) option \<Rightarrow> week_key \<Rightarrow> week_key
     \<Rightarrow> (week_key \<times> rat) list" where
  "material_projection L productId materialId anchor =
     project anchor (bomDerivedConsumption L productId materialId) (confirmedPurchaseQty L materialId)"

section \<open>Example data\<close>

text \<open>
  A driver for the worked examples: it binds an integral number as that integer, any
  number as a decimal, null and undefined as NULL, and throws on everything else.
\<close>

definition example_driver :: driver where
  "example_driver =
     \<lparr> int_param = (\<lambda>t v. case v of
                          JNum r \<Rightarrow> if of_int \<lfloor>r\<rfloor> = r then Val \<lfloor>r\<rfloor> else Throws
                        | JNull \<Rightarrow> Null
                        | JUndefined \<Rightarrow> Null
                        | _ \<Rightarrow> Throws),
       dec_param = (\<lambda>v. case v of
                          JNum r \<Rightarrow> Val r
                        | JNull \<Rightarrow> Null
                        | JUndefined \<Rightarrow> Null
                        | _ \<Rightarrow> Throws) \<rparr>"

text \<open>The seed rows of schema.sql.\<close>

definition seed_db :: db where
  "seed_db =
     \<lparr> Products = [1, 2, 3],
       OpeningBalances =
         [\<lparr>ob_ItemType = Product, ob_ItemId = 1, ob_StartYear = 2025, ob_StartWeek = 47, ob_BalanceQty = 20\<rparr>,
          \<lparr>ob_ItemType = Product, ob_ItemId = 2, ob_StartYear = 2025, ob_StartWeek = 47, ob_BalanceQty = 50\<rparr>,
          \<lparr>ob_ItemType = Material, ob_ItemId = 1, ob_StartYear = 2025, ob_StartWeek = 47, ob_BalanceQty = 10\<rparr>,
          \<lparr>ob_ItemType = Material, ob_ItemId = 2, ob_StartYear = 2025, ob_StartWeek = 47, ob_BalanceQty = 10\<rparr>,
          \<lparr>ob_ItemType = Material, ob_ItemId = 3, ob_StartYear = 2025, ob_StartWeek = 47, ob_BalanceQty = 10\<rparr>],
       SalesPlans = [],
       ProductionOrders =
         [\<lparr>po_ProductId = 1, po_Quantity = 5, po_PlanYear = 2025, po_PlanWeek = 48, po_Status = ''ACTIVE''\<rparr>,
          \<lparr>po_ProductId = 1, po_Quantity = 5, po_PlanYear = 2025, po_PlanWeek = 49, po_Status = ''ACTIVE''\<rparr>,
          \<lparr>po_ProductId = 2, po_Quantity = 3, po_PlanYear = 2025, po_PlanWeek = 49, po_Status = ''COMPLETE''\<rparr>,
          \<lparr>po_ProductId = 1, po_Quantity = 10, po_PlanYear = 2025, po_PlanWeek = 50, po_Status = ''INITIAL''\<rparr>],
       PurchaseOrders =
         [\<lparr>pu_PurchaseOrderId = 1, pu_Status = ''CONFIRM''\<rparr>,
          \<lparr>pu_PurchaseOrderId = 2, pu_Status = ''CONFIRM''\<rparr>,
          \<lparr>pu_PurchaseOrderId = 3, pu_Status = ''INITIAL''\<rparr>],
       PurchaseOrderLines =
         [\<lparr>pl_PurchaseOrderId = 1, pl_MaterialId = 1, pl_Quantity = 5, pl_EtaYear = 2025, pl_EtaWeek = 49\<rparr>,
          \<lparr>pl_PurchaseOrderId = 2, pl_MaterialId = 2, pl_Quantity = 5, pl_EtaYear = 2025, pl_EtaWeek = 49\<rparr>,
          \<lparr>pl_PurchaseOrderId = 2, pl_MaterialId = 3, pl_Quantity = 5, pl_EtaYear = 2025, pl_EtaWeek = 49\<rparr>] \<rparr>"

definition weeks_47_to_50 :: "string option \<Rightarrow> query" where
  "weeks_47_to_50 productId =
     \<lparr> q_productId = productId, q_materialId = None,
       q_fromYear = Some ''2025'', q_fromWeek = Some ''47'',
       q_toYear = Some ''2025'', q_toWeek = Some ''50'' \<rparr>"

text \<open>
  A parameter that \<open>parseIntSafe\<close> turns into a falsy value: it is absent, or its text,
  after leading white space and an optional sign, does not start with a decimal digit
  (the empty text is one such), or the digits it starts with make the number zero.
\<close>

definition no_integer :: "string option \<Rightarrow> bool" where
  "no_integer v =
     (case v of
        None \<Rightarrow> True
      | Some s \<Rightarrow> takeWhile is_digit (unsigned_part s) = []
                  \<or> digits_value 0 (takeWhile is_digit (unsigned_part s)) = 0)"

definition range_missing :: "query \<Rightarrow> bool" where
  "range_missing q =
     (no_integer (q_fromYear q) \<or> no_integer (q_fromWeek q)
      \<or> no_integer (q_toYear q) \<or> no_integer (q_toWeek q))"

text \<open>Product 1 from week 50 back to week 48 of 2025.\<close>

definition inverted_query :: query where
  "inverted_query =
     \<lparr> q_productId = Some ''1'', q_materialId = None,
       q_fromYear = Some ''2025'', q_fromWeek = Some ''50'',
       q_toYear = Some ''2025'', q_toWeek = Some ''48'' \<rparr>"

text \<open>Weeks 47 to 50 of 2025 for product 1, the first year written \<open>2025abc\<close>.\<close>

definition prefix_query :: query where
  "prefix_query =
     \<lparr> q_productId = Some ''1'', q_materialId = None,
       q_fromYear = Some ''2025abc'', q_fromWeek = Some ''47'',
       q_toYear = Some ''2025'', q_toWeek = Some ''50'' \<rparr>"

text \<open>Weeks 47 to 50 of 2025 with no year to start from.\<close>

definition yearless_query :: query where
  "yearless_query =
     \<lparr> q_productId = Some ''1'', q_materialId = None,
       q_fromYear = Some ''abc'', q_fromWeek = Some ''47'',
       q_toYear = Some ''2025'', q_toWeek = Some ''50'' \<rparr>"


text \<open>A body of PUT /api/opening-balance with all five fields given as a string and four numbers.\<close>

definition ob_body :: "string \<Rightarrow> rat \<Rightarrow> rat \<Rightarrow> rat \<Rightarrow> rat \<Rightarrow> jv" where
  "ob_body itemType itemId startYear startWeek balanceQty =
     JObj [(''itemType'', JStr itemType), (''itemId'', JNum itemId), (''startYear'', JNum startYear),
           (''startWeek'', JNum startWeek), (''balanceQty'', JNum balanceQty)]"

text \<open>Bodies of PUT /api/sales-plan: \<open>{ productId, plans }\<close>, and one plan with or without \<open>qty\<close>.\<close>

definition sp_body :: "jv \<Rightarrow> jv list \<Rightarrow> jv" where
  "sp_body productId plans = JObj [(''productId'', productId), (''plans'', JArr plans)]"

definition plan :: "jv \<Rightarrow> jv \<Rightarrow> jv \<Rightarrow> jv" where
  "plan year week qty = JObj [(''year'', year), (''week'', week), (''qty'', qty)]"

definition plan_without_qty :: "jv \<Rightarrow> jv \<Rightarrow> jv" where
  "plan_without_qty year week = JObj [(''year'', year), (''week'', week)]"

text \<open>
  Two batches for product 1: weeks 48 and 49 of 2025, the second without a quantity; and
  week 48 followed by a week 99, which the week check refuses.
\<close>

definition good_batch :: jv where
  "good_batch = sp_body (JNum 1) [plan (JNum 2025) (JNum 48) (JNum 3), plan (JNum 2025) (JNum 49) JNull]"

definition bad_batch :: jv where
  "bad_batch = sp_body (JNum 1) [plan (JNum 2025) (JNum 48) (JNum 3), plan (JNum 2025) (JNum 99) (JNum 1)]"

text \<open>
  The ledger of product 1 for weeks 47 to 50 of 2025 over the seed rows, with the BOM
  lines that schema.sql seeds.
\<close>

definition seed_ledger :: ledger where
  "seed_ledger =
     \<lparr> shipRows = sales_plan_sql seed_db 1 2025 47 2025 50,
       productionRows = production_sql seed_db (Some 1) 2025 47 2025 50,
       purchaseRows = purchase_sql (\<lambda>s. upper s = ''CONFIRM'') seed_db None 2025 47 2025 50,
       bomLines = [((1, 1), 1), ((1, 2), 1), ((1, 3), 1), ((2, 1), 2), ((2, 2), 1)] \<rparr>"

section \<open>Properties\<close>

subsection \<open>Grouping and the week range\<close>

lemma group_sum_keys: "map fst (group_sum rows) = remdups (map fst rows)"
  by (simp add: group_sum_def comp_def)

lemma map_of_group_sum:
  "map_of (group_sum rows) k =
     (if k \<in> fst ` set rows then Some (sum_list (map snd (filter (\<lambda>r. fst r = k) rows)))
      else None)"
proof -
  have "map_of (map (\<lambda>k. (k, f k)) ks) k = (if k \<in> set ks then Some (f k) else None)"
    for f :: "'a \<Rightarrow> rat" and ks
    by (induction ks) auto
  then show ?thesis
    by (simp add: group_sum_def)
qed

lemma distinct_sort_key_fst:
  assumes "distinct (map fst xs)"
  shows "distinct (map fst (sort_key f xs))"
proof -
  have "mset (map fst (sort_key f xs)) = mset (map fst xs)"
    by simp
  then show ?thesis
    using assms by (metis mset_eq_imp_distinct_iff)
qed

lemma map_of_sort_key:
  assumes "distinct (map fst xs)"
  shows "map_of (sort_key f xs) = map_of xs"
proof -
  have "set (sort_key f xs) = set xs" by simp
  then show ?thesis
    using assms distinct_sort_key_fst [OF assms, of f] by (simp add: map_of_inject_set)
qed

lemma week_between_lex:
  "week_between y w fy fw ty tw \<longleftrightarrow> (fy, fw) \<le> (y, w) \<and> (y, w) \<le> (ty, tw)"
  by (auto simp: week_between_def)

lemma production_sql_distinct: "distinct (map fst (production_sql d pid fy fw ty tw))"
  unfolding production_sql_def
  by (rule distinct_sort_key_fst) (simp add: group_sum_keys)

lemma production_where_iff:
  "production_where pid fy fw ty tw r \<longleftrightarrow>
     counted r \<and> (fy, fw) \<le> (po_PlanYear r, po_PlanWeek r)
     \<and> (po_PlanYear r, po_PlanWeek r) \<le> (ty, tw) \<and> id_filter pid (po_ProductId r)"
  unfolding production_where_def counted_def week_between_lex by blast

lemma production_sql_lookup:
  "map_of (production_sql d pid fy fw ty tw) (p, y, w) =
     (if (fy, fw) \<le> (y, w) \<and> (y, w) \<le> (ty, tw) \<and> id_filter pid p
         \<and> (\<exists>r \<in> set (ProductionOrders d). production_key r = (p, y, w) \<and> counted r)
      then Some (sum_list (map po_Quantity
             (filter (\<lambda>r. production_key r = (p, y, w) \<and> counted r) (ProductionOrders d))))
      else None)"
proof -
  let ?W = "production_where pid fy fw ty tw"
  let ?rows = "map (\<lambda>r. (production_key r, po_Quantity r)) (filter ?W (ProductionOrders d))"
  let ?ok = "(fy, fw) \<le> (y, w) \<and> (y, w) \<le> (ty, tw) \<and> id_filter pid p"
  have sel: "production_key r = (p, y, w) \<and> ?W r \<longleftrightarrow> ?ok \<and> production_key r = (p, y, w) \<and> counted r" for r
    unfolding production_where_iff production_key_def prod.inject by blast
  have 1: "map_of (production_sql d pid fy fw ty tw) = map_of (group_sum ?rows)"
    unfolding production_sql_def by (rule map_of_sort_key) (simp add: group_sum_keys)
  have "(p, y, w) \<in> fst ` set ?rows \<longleftrightarrow>
        (\<exists>r \<in> set (ProductionOrders d). production_key r = (p, y, w) \<and> ?W r)"
    by (force simp: image_iff)
  then have 2: "(p, y, w) \<in> fst ` set ?rows \<longleftrightarrow>
        ?ok \<and> (\<exists>r \<in> set (ProductionOrders d). production_key r = (p, y, w) \<and> counted r)"
    unfolding sel by blast
  have 3: "map snd (filter (\<lambda>r. fst r = (p, y, w)) ?rows) =
        map po_Quantity (filter (\<lambda>r. production_key r = (p, y, w) \<and> ?W r) (ProductionOrders d))"
    by (simp add: filter_map comp_def conj_commute)
  have 4: "filter (\<lambda>r. production_key r = (p, y, w) \<and> ?W r) (ProductionOrders d) =
        (if ?ok then filter (\<lambda>r. production_key r = (p, y, w) \<and> counted r) (ProductionOrders d)
         else [])"
    unfolding sel by (cases ?ok) (auto simp del: less_eq_prod_simp)
  show ?thesis
    unfolding 1 map_of_group_sum 2 3 4 by (cases ?ok) (auto simp del: less_eq_prod_simp)
qed

lemma production_sql_restrict:
  assumes "\<And>r. production_where pid fy fw ty tw r \<Longrightarrow> keep r"
  shows "production_sql (d\<lparr>ProductionOrders := filter keep (ProductionOrders d)\<rparr>) pid fy fw ty tw
         = production_sql d pid fy fw ty tw"
proof -
  have "filter (production_where pid fy fw ty tw) (filter keep (ProductionOrders d))
        = filter (production_where pid fy fw ty tw) (ProductionOrders d)"
    using assms by (auto intro: filter_cong)
  then show ?thesis
    by (simp add: production_sql_def)
qed

lemma reads_as_truthy: "reads_as drv v n \<Longrightarrow> truthy (parseIntSafe v)"
  by (simp add: reads_as_def)

lemma bind_range_reads:
  assumes "reads_as drv a fy" "reads_as drv b fw" "reads_as drv c ty" "reads_as drv e tw"
  shows "bind_range drv (parseIntSafe a) (parseIntSafe b) (parseIntSafe c) (parseIntSafe e)
         = Range fy fw ty tw"
  using assms by (simp add: reads_as_def bind_range_def)

lemma api_production_runs:
  assumes "reads_as drv (q_fromYear q) fy" "reads_as drv (q_fromWeek q) fw"
      "reads_as drv (q_toYear q) ty" "reads_as drv (q_toWeek q) tw"
      "int_param drv sql_Int (parseIntSafe (q_productId q)) \<noteq> Throws"
  shows "api_production drv (Some d) q =
     Ok (production_sql d (nullable (int_param drv sql_Int (parseIntSafe (q_productId q)))) fy fw ty tw)"
  using assms(5)
  by (cases "int_param drv sql_Int (parseIntSafe (q_productId q))")
     (simp_all add: api_production_def Let_def reads_as_truthy [OF assms(1)]
        reads_as_truthy [OF assms(2)] reads_as_truthy [OF assms(3)] reads_as_truthy [OF assms(4)]
        bind_range_reads [OF assms(1-4)])

text \<open>
  C2. GET /api/production, for a request whose four range parameters read as non-zero
  integers: the answer has one row per key (productId, year, week), and the row of a key
  is the sum of the quantities of exactly the production orders of that key whose status
  uppercases to ACTIVE or COMPLETE, provided the key's week lies in the lexicographic
  range from (fromYear, fromWeek) to (toYear, toWeek) and its product passes the
  productId filter; every other key has no row. Orders whose status uppercases to INITIAL
  and orders outside the range contribute nothing: removing them all from the table leaves
  the answer as it is.
\<close>

theorem api_production_sums:
  assumes "reads_as drv (q_fromYear q) fy" "reads_as drv (q_fromWeek q) fw"
      "reads_as drv (q_toYear q) ty" "reads_as drv (q_toWeek q) tw"
      "int_param drv sql_Int (parseIntSafe (q_productId q)) \<noteq> Throws"
      "pid = nullable (int_param drv sql_Int (parseIntSafe (q_productId q)))"
  shows "\<exists>rows. api_production drv (Some d) q = Ok rows
     \<and> distinct (map fst rows)
     \<and> (\<forall>p y w. map_of rows (p, y, w) =
          (if (fy, fw) \<le> (y, w) \<and> (y, w) \<le> (ty, tw) \<and> id_filter pid p
              \<and> (\<exists>r \<in> set (ProductionOrders d). production_key r = (p, y, w) \<and> counted r)
           then Some (sum_list (map po_Quantity
                  (filter (\<lambda>r. production_key r = (p, y, w) \<and> counted r) (ProductionOrders d))))
           else None))
     \<and> api_production drv
         (Some (d\<lparr>ProductionOrders :=
            filter (\<lambda>r. upper (po_Status r) \<noteq> ''INITIAL''
                      \<and> (fy, fw) \<le> (po_PlanYear r, po_PlanWeek r)
                      \<and> (po_PlanYear r, po_PlanWeek r) \<le> (ty, tw))
              (ProductionOrders d)\<rparr>)) q = Ok rows"
proof -
  let ?rows = "production_sql d pid fy fw ty tw"
  let ?keep = "\<lambda>r. upper (po_Status r) \<noteq> ''INITIAL''
                      \<and> (fy, fw) \<le> (po_PlanYear r, po_PlanWeek r)
                      \<and> (po_PlanYear r, po_PlanWeek r) \<le> (ty, tw)"
  have run: "api_production drv (Some d') q = Ok (production_sql d' pid fy fw ty tw)" for d'
    using api_production_runs [OF assms(1-5)] assms(6) by simp
  have keep: "production_where pid fy fw ty tw r \<Longrightarrow> ?keep r" for r
    unfolding production_where_iff counted_def by auto
  have "production_sql (d\<lparr>ProductionOrders := filter ?keep (ProductionOrders d)\<rparr>) pid fy fw ty tw = ?rows"
    by (rule production_sql_restrict) (rule keep)
  then show ?thesis
    using run production_sql_distinct production_sql_lookup by (intro exI [of _ ?rows]) simp
qed

lemmas eval_defs = parseIntSafe_def parseInt_def unsigned_part_def is_space_def is_digit_def digit_of_def is_negative_def
   upper_def upper_char_def example_driver_def reads_as_def

theorem api_production_sums_witness:
  "reads_as example_driver (q_fromYear (weeks_47_to_50 (Some ''1''))) 2025
   \<and> reads_as example_driver (q_fromWeek (weeks_47_to_50 (Some ''1''))) 47
   \<and> reads_as example_driver (q_toYear (weeks_47_to_50 (Some ''1''))) 2025
   \<and> reads_as example_driver (q_toWeek (weeks_47_to_50 (Some ''1''))) 50
   \<and> int_param example_driver sql_Int (parseIntSafe (q_productId (weeks_47_to_50 (Some ''1'')))) \<noteq> Throws
   \<and> (\<exists>rows. api_production example_driver (Some seed_db) (weeks_47_to_50 (Some ''1'')) = Ok rows
        \<and> map_of rows (1, 2025, 48) = Some 5 \<and> map_of rows (1, 2025, 50) = None
        \<and> map_of rows (2, 2025, 49) = None)"
proof -
  let ?q = "weeks_47_to_50 (Some ''1'')"
  have h1: "reads_as example_driver (q_fromYear ?q) 2025"
    by (simp add: weeks_47_to_50_def eval_defs)
  have h2: "reads_as example_driver (q_fromWeek ?q) 47"
    by (simp add: weeks_47_to_50_def eval_defs)
  have h3: "reads_as example_driver (q_toYear ?q) 2025"
    by (simp add: weeks_47_to_50_def eval_defs)
  have h4: "reads_as example_driver (q_toWeek ?q) 50"
    by (simp add: weeks_47_to_50_def eval_defs)
  have h5: "int_param example_driver sql_Int (parseIntSafe (q_productId ?q)) \<noteq> Throws"
    by (simp add: weeks_47_to_50_def eval_defs)
  have h6: "Some 1 = nullable (int_param example_driver sql_Int (parseIntSafe (q_productId ?q)))"
    by (simp add: weeks_47_to_50_def eval_defs)
  from api_production_sums [OF h1 h2 h3 h4 h5 h6, of seed_db]
  obtain rows where r: "api_production example_driver (Some seed_db) ?q = Ok rows"
    and l: "\<And>p y w. map_of rows (p, y, w) =
          (if (2025, 47) \<le> (y, w) \<and> (y, w) \<le> (2025, 50) \<and> id_filter (Some 1) p
              \<and> (\<exists>r \<in> set (ProductionOrders seed_db). production_key r = (p, y, w) \<and> counted r)
           then Some (sum_list (map po_Quantity
                  (filter (\<lambda>r. production_key r = (p, y, w) \<and> counted r) (ProductionOrders seed_db))))
           else None)"
    by blast
  have "map_of rows (1, 2025, 48) = Some 5" "map_of rows (1, 2025, 50) = None"
      "map_of rows (2, 2025, 49) = None"
    unfolding l by (simp_all add: seed_db_def id_filter_def production_key_def counted_def upper_def upper_char_def)
  with h1 h2 h3 h4 h5 r show ?thesis by blast
qed

subsection \<open>The GET endpoints\<close>

lemma no_integer_falsy: "no_integer v \<longleftrightarrow> \<not> truthy (parseIntSafe v)"
  by (cases v) (auto simp: no_integer_def parseIntSafe_def parseInt_def Let_def unsigned_part_def)

text \<open>
  C6 (amended). When any of fromYear, fromWeek, toYear, toWeek is absent, has no leading
  decimal integer, or reads as zero, GET /api/production and GET /api/purchase (with
  either status test) answer 400 with the error text of the handler; GET /api/sales-plan
  does so too, also when it is productId that is absent, without integer or zero. The
  answer is the same for every store, a disconnected one included, and for every driver:
  it is given before the store is asked for anything.
\<close>

theorem unreadable_parameter_400:
  "(range_missing q \<longrightarrow>
      api_production drv st q = Err 400 ''fromYear/fromWeek/toYear/toWeek required''
      \<and> purchase_handler status_test drv st q = Err 400 ''fromYear/fromWeek/toYear/toWeek required'')
   \<and> (range_missing q \<or> no_integer (q_productId q) \<longrightarrow>
        api_sales_plan drv st q = Err 400 ''productId/from/to required'')"
  unfolding range_missing_def no_integer_falsy
  by (auto simp: api_production_def purchase_handler_def api_sales_plan_def Let_def)

theorem unreadable_parameter_400_witness:
  "range_missing yearless_query
   \<and> api_production example_driver None yearless_query
         = Err 400 ''fromYear/fromWeek/toYear/toWeek required''
   \<and> api_purchase example_driver (Some seed_db) yearless_query
         = Err 400 ''fromYear/fromWeek/toYear/toWeek required''
   \<and> api_sales_plan example_driver (Some seed_db) yearless_query
         = Err 400 ''productId/from/to required''"
proof -
  have h: "range_missing yearless_query"
    by (simp add: range_missing_def no_integer_def yearless_query_def unsigned_part_def
        is_space_def is_digit_def digit_of_def)
  show ?thesis
    using h unreadable_parameter_400 [of yearless_query example_driver None "\<lambda>s. upper s = ''CONFIRM''"]
      unreadable_parameter_400 [of yearless_query example_driver "Some seed_db" "\<lambda>s. upper s = ''CONFIRM''"]
    by (simp add: api_purchase_def)
qed

text \<open>
  C6, as stated, fails for a parameter that is not a number but starts with one: with
  fromYear \<open>2025abc\<close> the request is answered from the store, as for \<open>2025\<close>.
\<close>

theorem prefix_accepted_counterexample:
  "api_production example_driver (Some seed_db) prefix_query
     = Ok [((1, 2025, 48), 5), ((1, 2025, 49), 5)]"
  by code_simp

text \<open>
  C5, as stated, fails: the range from week 50 back to week 48 is not rejected. The query
  runs and the answer is the empty list, with status 200.
\<close>

theorem inverted_range_counterexample:
  "api_production example_driver (Some seed_db) inverted_query = Ok []"
  by code_simp


lemma week_between_inverted: "(ty, tw) < (fy, fw) \<Longrightarrow> \<not> week_between y w fy fw ty tw"
  by (auto simp: week_between_def)

lemma group_sum_Nil: "group_sum [] = []"
  by (simp add: group_sum_def)

lemma production_sql_inverted: "(ty, tw) < (fy, fw) \<Longrightarrow> production_sql d pid fy fw ty tw = []"
  by (simp add: production_sql_def production_where_def week_between_inverted group_sum_Nil del: less_prod_simp)

lemma purchase_sql_inverted: "(ty, tw) < (fy, fw) \<Longrightarrow> purchase_sql t d pid fy fw ty tw = []"
  by (simp add: purchase_sql_def purchase_where_def week_between_inverted group_sum_Nil del: less_prod_simp)

lemma sales_plan_sql_inverted: "(ty, tw) < (fy, fw) \<Longrightarrow> sales_plan_sql d pid fy fw ty tw = []"
  by (simp add: sales_plan_sql_def week_between_inverted del: less_prod_simp)

lemma purchase_handler_runs:
  assumes "reads_as drv (q_fromYear q) fy" "reads_as drv (q_fromWeek q) fw"
      "reads_as drv (q_toYear q) ty" "reads_as drv (q_toWeek q) tw"
      "int_param drv sql_Int (parseIntSafe (q_materialId q)) \<noteq> Throws"
  shows "purchase_handler t drv (Some d) q =
     Ok (purchase_sql t d (nullable (int_param drv sql_Int (parseIntSafe (q_materialId q)))) fy fw ty tw)"
  using assms(5)
  by (cases "int_param drv sql_Int (parseIntSafe (q_materialId q))")
     (simp_all add: purchase_handler_def Let_def reads_as_truthy [OF assms(1)]
        reads_as_truthy [OF assms(2)] reads_as_truthy [OF assms(3)] reads_as_truthy [OF assms(4)]
        bind_range_reads [OF assms(1-4)])

lemma api_sales_plan_runs:
  assumes "reads_as drv (q_fromYear q) fy" "reads_as drv (q_fromWeek q) fw"
      "reads_as drv (q_toYear q) ty" "reads_as drv (q_toWeek q) tw"
      "reads_as drv (q_productId q) p"
  shows "api_sales_plan drv (Some d) q = Ok (sales_plan_sql d p fy fw ty tw)"
  using assms(5) reads_as_truthy [OF assms(5)]
  by (simp add: api_sales_plan_def Let_def reads_as_truthy [OF assms(1)]
        reads_as_truthy [OF assms(2)] reads_as_truthy [OF assms(3)] reads_as_truthy [OF assms(4)]
        bind_range_reads [OF assms(1-4)])
     (simp add: reads_as_def)

text \<open>
  C5 (amended). A request whose range parameters read as non-zero integers with
  (fromYear, fromWeek) lexicographically after (toYear, toWeek) is not rejected: on a
  connected store each of the three week-range endpoints runs its query, which selects no
  row, and answers the empty list (for GET /api/sales-plan, given its productId).
\<close>

theorem inverted_range_empty:
  assumes "reads_as drv (q_fromYear q) fy" "reads_as drv (q_fromWeek q) fw"
      "reads_as drv (q_toYear q) ty" "reads_as drv (q_toWeek q) tw"
      "(ty, tw) < (fy, fw)"
  shows "(int_param drv sql_Int (parseIntSafe (q_productId q)) \<noteq> Throws
            \<longrightarrow> api_production drv (Some d) q = Ok [])
     \<and> (int_param drv sql_Int (parseIntSafe (q_materialId q)) \<noteq> Throws
            \<longrightarrow> purchase_handler status_test drv (Some d) q = Ok [])
     \<and> (reads_as drv (q_productId q) p \<longrightarrow> api_sales_plan drv (Some d) q = Ok [])"
  using api_production_runs [OF assms(1-4)] purchase_handler_runs [OF assms(1-4)]
    api_sales_plan_runs [OF assms(1-4)] 
  by (simp add: production_sql_inverted [OF assms(5)] purchase_sql_inverted [OF assms(5)]
      sales_plan_sql_inverted [OF assms(5)] del: less_prod_simp)

theorem inverted_range_empty_witness:
  "reads_as example_driver (q_fromYear inverted_query) 2025
   \<and> reads_as example_driver (q_fromWeek inverted_query) 50
   \<and> reads_as example_driver (q_toYear inverted_query) 2025
   \<and> reads_as example_driver (q_toWeek inverted_query) 48
   \<and> ((2025::int), (48::int)) < (2025, 50)
   \<and> int_param example_driver sql_Int (parseIntSafe (q_productId inverted_query)) \<noteq> Throws
   \<and> int_param example_driver sql_Int (parseIntSafe (q_materialId inverted_query)) \<noteq> Throws
   \<and> reads_as example_driver (q_productId inverted_query) 1
   \<and> api_production example_driver (Some seed_db) inverted_query = Ok []
   \<and> api_purchase example_driver (Some seed_db) inverted_query = Ok []
   \<and> api_sales_plan example_driver (Some seed_db) inverted_query = Ok []"
proof -
  have h1: "reads_as example_driver (q_fromYear inverted_query) 2025"
    and h2: "reads_as example_driver (q_fromWeek inverted_query) 50"
    and h3: "reads_as example_driver (q_toYear inverted_query) 2025"
    and h4: "reads_as example_driver (q_toWeek inverted_query) 48"
    and h6: "int_param example_driver sql_Int (parseIntSafe (q_productId inverted_query)) \<noteq> Throws"
    and h7: "int_param example_driver sql_Int (parseIntSafe (q_materialId inverted_query)) \<noteq> Throws"
    and h8: "reads_as example_driver (q_productId inverted_query) 1"
    by (simp_all add: inverted_query_def eval_defs)
  have h5: "((2025::int), (48::int)) < (2025, 50)" by simp
  show ?thesis
    using h1 h2 h3 h4 h5 h6 h7 h8
      inverted_range_empty [OF h1 h2 h3 h4 h5, of seed_db "\<lambda>s. upper s = ''CONFIRM''" 1]
    by (simp add: api_purchase_def)
qed

lemma filter_key_single:
  "distinct (map f xs) \<Longrightarrow> x \<in> set xs \<Longrightarrow> filter (\<lambda>r. f r = f x) xs = [x]"
  by (induction xs) (auto simp: filter_empty_conv image_iff)

text \<open>
  C8. GET /api/opening-balance/:type/:id for an id that reads as a non-zero integer, on a
  connected store: when no row is stored for the item (a product when the type is
  \<open>product\<close>, a material otherwise) the answer is null with status 200; when a row is
  stored, and it is the only one of its key, the answer is that row's year, week and
  balance.
\<close>

theorem get_opening_balance_null_or_row:
  assumes "reads_as drv (Some ident) i"
    and "t = (if type = ''product'' then Product else Material)"
  shows "((\<forall>r \<in> set (OpeningBalances d). ob_key r \<noteq> (t, i))
            \<longrightarrow> api_get_opening_balance drv (Some d) type ident = Ok None)
     \<and> (\<forall>r \<in> set (OpeningBalances d). ob_key r = (t, i) \<and> distinct (map ob_key (OpeningBalances d))
            \<longrightarrow> api_get_opening_balance drv (Some d) type ident
                  = Ok (Some (ob_StartYear r, ob_StartWeek r, ob_BalanceQty r)))"
proof -
  let ?sel = "filter (\<lambda>r. ob_ItemType r = t \<and> ob_ItemId r = i) (OpeningBalances d)"
  have run: "api_get_opening_balance drv (Some d) type ident =
      (case ?sel of [] \<Rightarrow> Ok None
       | r # _ \<Rightarrow> Ok (Some (ob_StartYear r, ob_StartWeek r, ob_BalanceQty r)))"
    using assms reads_as_truthy [OF assms(1)]
    by (simp add: api_get_opening_balance_def Let_def reads_as_def)
  have sel: "?sel = filter (\<lambda>r. ob_key r = (t, i)) (OpeningBalances d)"
    by (simp add: ob_key_def)
  have none: "\<forall>r \<in> set (OpeningBalances d). ob_key r \<noteq> (t, i) \<Longrightarrow> ?sel = []"
    unfolding sel by (simp add: filter_empty_conv)
  have one: "?sel = [r]"
    if "r \<in> set (OpeningBalances d)" "ob_key r = (t, i)" "distinct (map ob_key (OpeningBalances d))" for r
    unfolding sel using filter_key_single [OF that(3) that(1)] that(2) by simp
  show ?thesis
    using none one run by (auto simp del: less_prod_simp)
qed

theorem get_opening_balance_null_or_row_witness:
  "reads_as example_driver (Some ''3'') 3
   \<and> (Product, 3) \<notin> set (map ob_key (OpeningBalances seed_db))
   \<and> api_get_opening_balance example_driver (Some seed_db) ''product'' ''3'' = Ok None
   \<and> reads_as example_driver (Some ''1'') 1
   \<and> distinct (map ob_key (OpeningBalances seed_db))
   \<and> api_get_opening_balance example_driver (Some seed_db) ''material'' ''1'' = Ok (Some (2025, 47, 10))"
proof -
  let ?r = "\<lparr>ob_ItemType = Material, ob_ItemId = 1, ob_StartYear = 2025, ob_StartWeek = 47,
             ob_BalanceQty = 10\<rparr>"
  have h1: "reads_as example_driver (Some ''3'') 3" and h2: "reads_as example_driver (Some ''1'') 1"
    by (simp_all add: eval_defs)
  have a: "(Product, 3) \<notin> set (map ob_key (OpeningBalances seed_db))"
    and d: "distinct (map ob_key (OpeningBalances seed_db))"
    and r: "?r \<in> set (OpeningBalances seed_db)" "ob_key ?r = (Material, 1)"
    by (simp_all add: seed_db_def ob_key_def)
  from a have a': "\<forall>r \<in> set (OpeningBalances seed_db). ob_key r \<noteq> (Product, 3)"
    by (metis image_eqI set_map)
  have t1: "Product = (if ''product'' = ''product'' then Product else Material)"
    and t2: "Material = (if ''material'' = ''product'' then Product else Material)"
    by simp_all
  have "api_get_opening_balance example_driver (Some seed_db) ''product'' ''3'' = Ok None"
    using conjunct1 [OF get_opening_balance_null_or_row [OF h1 t1, of seed_db]] a' by (rule mp)
  moreover have "api_get_opening_balance example_driver (Some seed_db) ''material'' ''1''
      = Ok (Some (ob_StartYear ?r, ob_StartWeek ?r, ob_BalanceQty ?r))"
    using bspec [OF conjunct2 [OF get_opening_balance_null_or_row [OF h2 t2, of seed_db]] r(1)] r(2) d
    by (rule_tac mp) simp_all
  ultimately show ?thesis
    using h1 h2 a d by (simp del: distinct_map set_map)
qed

subsection \<open>PUT /api/opening-balance\<close>

lemma ob_key_update:
  "ob_key (r\<lparr>ob_StartYear := y, ob_StartWeek := w, ob_BalanceQty := b\<rparr>) = ob_key r"
  by (simp add: ob_key_def)

lemma ob_update_same_key:
  assumes "ob_key r = ob_key new"
  shows "r\<lparr>ob_StartYear := ob_StartYear new, ob_StartWeek := ob_StartWeek new,
            ob_BalanceQty := ob_BalanceQty new\<rparr> = new"
  using assms by (cases r, cases new) (simp add: ob_key_def)

lemma merge_opening_balance_result:
  assumes "merge_opening_balance rows new = Some rows'"
  shows "rows' =
     (if ob_key new \<in> set (map ob_key rows)
      then map (\<lambda>r. if ob_key r = ob_key new
                     then r\<lparr>ob_StartYear := ob_StartYear new, ob_StartWeek := ob_StartWeek new,
                            ob_BalanceQty := ob_BalanceQty new\<rparr>
                     else r) rows
      else rows @ [new])"
proof -
  have "(\<exists>r \<in> set rows. ob_key r = ob_key new) \<longleftrightarrow> ob_key new \<in> set (map ob_key rows)"
    by (simp add: image_iff) metis
  then show ?thesis
    using assms unfolding merge_opening_balance_def by (simp split: if_splits)
qed

lemma merge_opening_balance_keys:
  assumes "merge_opening_balance rows new = Some rows'"
  shows "map ob_key rows' =
           (if ob_key new \<in> set (map ob_key rows) then map ob_key rows
            else map ob_key rows @ [ob_key new])"
proof -
  have "map ob_key (map (\<lambda>r. if ob_key r = k then r\<lparr>ob_StartYear := y, ob_StartWeek := w,
            ob_BalanceQty := b\<rparr> else r) rows) = map ob_key rows" for k y w b
    by (induction rows) (simp_all add: ob_key_update)
  then show ?thesis
    unfolding merge_opening_balance_result [OF assms] by simp
qed

lemma merge_opening_balance_distinct:
  assumes "merge_opening_balance rows new = Some rows'" "distinct (map ob_key rows)"
  shows "distinct (map ob_key rows')"
  using assms(2) unfolding merge_opening_balance_keys [OF assms(1)] by auto

lemma merge_opening_balance_stored:
  assumes "merge_opening_balance rows new = Some rows'" "distinct (map ob_key rows)"
  shows "filter (\<lambda>r. ob_key r = ob_key new) rows' = [new]"
proof (cases "ob_key new \<in> set (map ob_key rows)")
  case False
  then have "rows' = rows @ [new]"
    using merge_opening_balance_result [OF assms(1)] by simp
  moreover have "filter (\<lambda>r. ob_key r = ob_key new) rows = []"
    using False by (simp add: filter_empty_conv image_iff) metis
  ultimately show ?thesis
    by simp
next
  case True
  let ?u = "\<lambda>r. if ob_key r = ob_key new
                 then r\<lparr>ob_StartYear := ob_StartYear new, ob_StartWeek := ob_StartWeek new,
                        ob_BalanceQty := ob_BalanceQty new\<rparr> else r"
  from True have rows': "rows' = map ?u rows"
    using merge_opening_balance_result [OF assms(1)] by simp
  have upd: "ob_key r = ob_key new \<Longrightarrow> ?u r = new" for r
    by (simp add: ob_update_same_key)
  from True obtain r where r: "r \<in> set rows" "ob_key r = ob_key new" by auto
  have one: "filter (\<lambda>r. ob_key r = ob_key new) rows = [r]"
    using filter_key_single [OF assms(2) r(1)] r(2) by simp
  have "filter (\<lambda>r. ob_key r = ob_key new) (map ?u rows)
        = map ?u (filter (\<lambda>r. ob_key r = ob_key new) rows)"
    by (induction rows) (simp_all add: ob_key_update)
  then show ?thesis
    using upd [OF r(2)] unfolding rows' one by simp
qed

lemma merge_opening_balance_length:
  assumes "merge_opening_balance rows new = Some rows'" "ob_key new \<in> set (map ob_key rows)"
  shows "length rows' = length rows"
  using arg_cong [OF merge_opening_balance_keys [OF assms(1)], of length] assms(2) by simp

lemma put_opening_balance_cases:
  "put_opening_balance drv st body = (st', resp) \<Longrightarrow>
     (st' = st \<and> (\<exists>c m. resp = Err c m))
     \<or> (\<exists>d rows i y w b.
          st = Some d \<and> st' = Some (d\<lparr>OpeningBalances := rows\<rparr>) \<and> resp = Ok ()
          \<and> (field body ''itemType'' = JStr ''P'' \<or> field body ''itemType'' = JStr ''M'')
          \<and> int_param drv sql_Int (field body ''itemId'') = Val i
          \<and> int_param drv sql_SmallInt (field body ''startYear'') = Val y
          \<and> int_param drv sql_TinyInt (field body ''startWeek'') = Val w
          \<and> dec_param drv (field body ''balanceQty'') = Val b
          \<and> merge_opening_balance (OpeningBalances d)
               \<lparr>ob_ItemType = (if field body ''itemType'' = JStr ''P'' then Product else Material),
                ob_ItemId = i, ob_StartYear = y, ob_StartWeek = w, ob_BalanceQty = b\<rparr> = Some rows)"
  unfolding put_opening_balance_def Let_def
  by (auto split: if_splits option.splits bound.splits prod.splits)

lemma put_opening_balance_single:
  assumes "single_opening_balance st"
  shows "single_opening_balance (fst (put_opening_balance drv st body))"
proof -
  obtain st' resp where p: "put_opening_balance drv st body = (st', resp)"
    by (cases "put_opening_balance drv st body")
  from put_opening_balance_cases [OF p] show ?thesis
    using assms p by (auto simp: single_opening_balance_def dest: merge_opening_balance_distinct)
qed

lemma put_opening_balances_single:
  "single_opening_balance st \<Longrightarrow> single_opening_balance (put_opening_balances drv st bodies)"
  by (induction bodies arbitrary: st) (simp_all add: put_opening_balance_single)

text \<open>
  C4. From a store in which no two opening balances share (itemType, itemId), every
  sequence of PUT /api/opening-balance requests, whatever their bodies and whatever the
  driver, ends in such a store. After a request that is answered ok, exactly one row is
  stored for the request's key, and its start year, start week and balance are the
  request's values as the driver bound them; when the key had a row before, the table has
  as many rows as before.
\<close>

theorem single_opening_balance_kept:
  assumes "single_opening_balance st"
  shows "single_opening_balance (put_opening_balances drv st bodies)
     \<and> (put_opening_balance drv st body = (st', Ok ()) \<longrightarrow>
          (\<exists>d d' t i y w b.
             st = Some d \<and> st' = Some d'
             \<and> t = (if field body ''itemType'' = JStr ''P'' then Product else Material)
             \<and> int_param drv sql_Int (field body ''itemId'') = Val i
             \<and> int_param drv sql_SmallInt (field body ''startYear'') = Val y
             \<and> int_param drv sql_TinyInt (field body ''startWeek'') = Val w
             \<and> dec_param drv (field body ''balanceQty'') = Val b
             \<and> filter (\<lambda>r. ob_key r = (t, i)) (OpeningBalances d')
                 = [\<lparr>ob_ItemType = t, ob_ItemId = i, ob_StartYear = y, ob_StartWeek = w,
                     ob_BalanceQty = b\<rparr>]
             \<and> ((t, i) \<in> set (map ob_key (OpeningBalances d))
                  \<longrightarrow> length (OpeningBalances d') = length (OpeningBalances d))))"
proof (intro conjI impI)
  show "single_opening_balance (put_opening_balances drv st bodies)"
    using assms by (rule put_opening_balances_single)
next
  assume p: "put_opening_balance drv st body = (st', Ok ())"
  let ?t = "if field body ''itemType'' = JStr ''P'' then Product else Material"
  from put_opening_balance_cases [OF p] obtain d rows i y w b where
    st: "st = Some d" "st' = Some (d\<lparr>OpeningBalances := rows\<rparr>)"
    and b: "int_param drv sql_Int (field body ''itemId'') = Val i"
      "int_param drv sql_SmallInt (field body ''startYear'') = Val y"
      "int_param drv sql_TinyInt (field body ''startWeek'') = Val w"
      "dec_param drv (field body ''balanceQty'') = Val b"
    and m: "merge_opening_balance (OpeningBalances d)
               \<lparr>ob_ItemType = ?t, ob_ItemId = i, ob_StartYear = y, ob_StartWeek = w,
                ob_BalanceQty = b\<rparr> = Some rows"
    by blast
  let ?new = "\<lparr>ob_ItemType = ?t, ob_ItemId = i, ob_StartYear = y, ob_StartWeek = w, ob_BalanceQty = b\<rparr>"
  have k: "ob_key ?new = (?t, i)" by (simp add: ob_key_def)
  from assms st have dist: "distinct (map ob_key (OpeningBalances d))"
    by (simp add: single_opening_balance_def)
  have 1: "filter (\<lambda>r. ob_key r = (?t, i)) rows = [?new]"
    using merge_opening_balance_stored [OF m dist] unfolding k .
  have 2: "(?t, i) \<in> set (map ob_key (OpeningBalances d)) \<Longrightarrow> length rows = length (OpeningBalances d)"
    using merge_opening_balance_length [OF m] unfolding k .
  show "\<exists>d d' t i y w b.
             st = Some d \<and> st' = Some d'
             \<and> t = (if field body ''itemType'' = JStr ''P'' then Product else Material)
             \<and> int_param drv sql_Int (field body ''itemId'') = Val i
             \<and> int_param drv sql_SmallInt (field body ''startYear'') = Val y
             \<and> int_param drv sql_TinyInt (field body ''startWeek'') = Val w
             \<and> dec_param drv (field body ''balanceQty'') = Val b
             \<and> filter (\<lambda>r. ob_key r = (t, i)) (OpeningBalances d')
                 = [\<lparr>ob_ItemType = t, ob_ItemId = i, ob_StartYear = y, ob_StartWeek = w,
                     ob_BalanceQty = b\<rparr>]
             \<and> ((t, i) \<in> set (map ob_key (OpeningBalances d))
                  \<longrightarrow> length (OpeningBalances d') = length (OpeningBalances d))"
    using st b 1 2 by (intro exI [of _ d] exI [of _ "d\<lparr>OpeningBalances := rows\<rparr>"] exI [of _ ?t]
        exI [of _ i] exI [of _ y] exI [of _ w] exI [of _ b]) simp
qed

theorem single_opening_balance_kept_witness:
  "single_opening_balance (Some seed_db)
   \<and> single_opening_balance
        (put_opening_balances example_driver (Some seed_db)
           [ob_body ''P'' 1 2026 3 7, ob_body ''P'' 1 2026 4 8, ob_body ''M'' 9 2026 4 0])
   \<and> (\<exists>d'. put_opening_balance example_driver (Some seed_db) (ob_body ''P'' 1 2026 3 7)
               = (Some d', Ok ())
          \<and> filter (\<lambda>r. ob_key r = (Product, 1)) (OpeningBalances d')
              = [\<lparr>ob_ItemType = Product, ob_ItemId = 1, ob_StartYear = 2026, ob_StartWeek = 3,
                  ob_BalanceQty = 7\<rparr>]
          \<and> length (OpeningBalances d') = 5)"
proof -
  let ?body = "ob_body ''P'' 1 2026 3 7"
  have h: "single_opening_balance (Some seed_db)"
    by (simp add: single_opening_balance_def seed_db_def ob_key_def)
  have "snd (put_opening_balance example_driver (Some seed_db) ?body) = Ok ()"
    by code_simp
  then obtain st' where p: "put_opening_balance example_driver (Some seed_db) ?body = (st', Ok ())"
    by (cases "put_opening_balance example_driver (Some seed_db) ?body") simp
  have f: "field ?body ''itemType'' = JStr ''P''" "field ?body ''itemId'' = JNum 1"
      "field ?body ''startYear'' = JNum 2026" "field ?body ''startWeek'' = JNum 3"
      "field ?body ''balanceQty'' = JNum 7"
    by (simp_all add: ob_body_def)
  have k: "(Product, 1) \<in> set (map ob_key (OpeningBalances seed_db))"
      "length (OpeningBalances seed_db) = 5"
    by (simp_all add: seed_db_def ob_key_def)
  from single_opening_balance_kept [OF h, of example_driver _ ?body st'] p
  have 1: "single_opening_balance (put_opening_balances example_driver (Some seed_db) bodies)"
    and "\<exists>d d' t i y w b.
             Some seed_db = Some d \<and> st' = Some d'
             \<and> t = (if field ?body ''itemType'' = JStr ''P'' then Product else Material)
             \<and> int_param example_driver sql_Int (field ?body ''itemId'') = Val i
             \<and> int_param example_driver sql_SmallInt (field ?body ''startYear'') = Val y
             \<and> int_param example_driver sql_TinyInt (field ?body ''startWeek'') = Val w
             \<and> dec_param example_driver (field ?body ''balanceQty'') = Val b
             \<and> filter (\<lambda>r. ob_key r = (t, i)) (OpeningBalances d')
                 = [\<lparr>ob_ItemType = t, ob_ItemId = i, ob_StartYear = y, ob_StartWeek = w,
                     ob_BalanceQty = b\<rparr>]
             \<and> ((t, i) \<in> set (map ob_key (OpeningBalances d))
                  \<longrightarrow> length (OpeningBalances d') = length (OpeningBalances d))" for bodies
    by blast+
  then obtain d' where "st' = Some d'"
    "filter (\<lambda>r. ob_key r = (Product, 1)) (OpeningBalances d')
       = [\<lparr>ob_ItemType = Product, ob_ItemId = 1, ob_StartYear = 2026, ob_StartWeek = 3,
           ob_BalanceQty = 7\<rparr>]"
    "length (OpeningBalances d') = 5"
    unfolding f using k by (auto simp: example_driver_def simp del: set_map)
  with h 1 p show ?thesis
    by blast
qed

text \<open>
  C9. PUT /api/opening-balance with itemType P or M: a body whose itemId, startYear or
  startWeek is the number 0 is answered 400 "Missing fields" and the store stays as it
  is. With those three truthy, the answer is 400 "Missing fields" exactly when
  balanceQty is undefined; in particular a balanceQty of 0 passes, and on a connected
  store, with values the driver binds and the columns take, the request is answered ok
  and a row with the bound values, the balance bound for 0 among them, is stored.
\<close>

theorem opening_balance_zero_fields:
  assumes "field body ''itemType'' = JStr ''P'' \<or> field body ''itemType'' = JStr ''M''"
  shows "(field body ''itemId'' = JNum 0 \<or> field body ''startYear'' = JNum 0
            \<or> field body ''startWeek'' = JNum 0
          \<longrightarrow> put_opening_balance drv st body = (st, Err 400 ''Missing fields''))
     \<and> (truthy (field body ''itemId'') \<and> truthy (field body ''startYear'')
          \<and> truthy (field body ''startWeek'')
          \<longrightarrow> (put_opening_balance drv st body = (st, Err 400 ''Missing fields'')
                \<longleftrightarrow> field body ''balanceQty'' = JUndefined))
     \<and> (truthy (field body ''itemId'') \<and> truthy (field body ''startYear'')
          \<and> truthy (field body ''startWeek'') \<and> field body ''balanceQty'' = JNum 0
          \<and> st = Some d
          \<and> int_param drv sql_Int (field body ''itemId'') = Val i
          \<and> int_param drv sql_SmallInt (field body ''startYear'') = Val y
          \<and> int_param drv sql_TinyInt (field body ''startWeek'') = Val w
          \<and> dec_param drv (JNum 0) = Val b
          \<and> fits sql_Int i \<and> fits sql_SmallInt y \<and> week_check w
          \<longrightarrow> (\<exists>d'. put_opening_balance drv st body = (Some d', Ok ())
                \<and> (\<exists>r \<in> set (OpeningBalances d').
                      ob_ItemId r = i \<and> ob_StartYear r = y \<and> ob_StartWeek r = w
                      \<and> ob_BalanceQty r = b)))"
proof (intro conjI impI)
  assume "field body ''itemId'' = JNum 0 \<or> field body ''startYear'' = JNum 0
            \<or> field body ''startWeek'' = JNum 0"
  then have "\<not> truthy (field body ''itemId'') \<or> \<not> truthy (field body ''startYear'')
      \<or> \<not> truthy (field body ''startWeek'')"
    by auto
  then show "put_opening_balance drv st body = (st, Err 400 ''Missing fields'')"
    using assms unfolding put_opening_balance_def Let_def by auto
next
  assume "truthy (field body ''itemId'') \<and> truthy (field body ''startYear'')
          \<and> truthy (field body ''startWeek'')"
  then show "put_opening_balance drv st body = (st, Err 400 ''Missing fields'')
                \<longleftrightarrow> field body ''balanceQty'' = JUndefined"
    using assms unfolding put_opening_balance_def Let_def
    by (auto split: option.splits bound.splits)
next
  assume a: "truthy (field body ''itemId'') \<and> truthy (field body ''startYear'')
          \<and> truthy (field body ''startWeek'') \<and> field body ''balanceQty'' = JNum 0
          \<and> st = Some d
          \<and> int_param drv sql_Int (field body ''itemId'') = Val i
          \<and> int_param drv sql_SmallInt (field body ''startYear'') = Val y
          \<and> int_param drv sql_TinyInt (field body ''startWeek'') = Val w
          \<and> dec_param drv (JNum 0) = Val b
          \<and> fits sql_Int i \<and> fits sql_SmallInt y \<and> week_check w"
  let ?new = "\<lparr>ob_ItemType = (if field body ''itemType'' = JStr ''P'' then Product else Material),
                ob_ItemId = i, ob_StartYear = y, ob_StartWeek = w, ob_BalanceQty = b\<rparr>"
  from a have "fits sql_TinyInt w"
    by (simp add: week_check_def)
  with a have "merge_opening_balance (OpeningBalances d) ?new \<noteq> None"
    by (simp add: merge_opening_balance_def)
  then obtain rows where m: "merge_opening_balance (OpeningBalances d) ?new = Some rows"
    by blast
  have "?new \<in> set rows"
  proof (cases "ob_key ?new \<in> set (map ob_key (OpeningBalances d))")
    case False
    then show ?thesis
      using merge_opening_balance_result [OF m] by simp
  next
    case True
    then obtain r where r: "r \<in> set (OpeningBalances d)" "ob_key r = ob_key ?new"
      by auto
    have "(if ob_key r = ob_key ?new
           then r\<lparr>ob_StartYear := ob_StartYear ?new, ob_StartWeek := ob_StartWeek ?new,
                  ob_BalanceQty := ob_BalanceQty ?new\<rparr>
           else r) = ?new"
      using ob_update_same_key [OF r(2)] r(2) by simp
    with r(1) True show ?thesis
      unfolding merge_opening_balance_result [OF m] by (simp only: if_True set_map) (rule image_eqI [of _ _ r], simp_all)
  qed
  moreover have "put_opening_balance drv st body = (Some (d\<lparr>OpeningBalances := rows\<rparr>), Ok ())"
    using a assms m unfolding put_opening_balance_def Let_def by auto
  ultimately show "\<exists>d'. put_opening_balance drv st body = (Some d', Ok ())
                \<and> (\<exists>r \<in> set (OpeningBalances d').
                      ob_ItemId r = i \<and> ob_StartYear r = y \<and> ob_StartWeek r = w
                      \<and> ob_BalanceQty r = b)"
    by (intro exI [of _ "d\<lparr>OpeningBalances := rows\<rparr>"]) force
qed

theorem opening_balance_zero_fields_witness:
  "(field (ob_body ''M'' 9 2026 0 5) ''itemType'' = JStr ''P''
      \<or> field (ob_body ''M'' 9 2026 0 5) ''itemType'' = JStr ''M'')
   \<and> field (ob_body ''M'' 9 2026 0 5) ''startWeek'' = JNum 0
   \<and> put_opening_balance example_driver (Some seed_db) (ob_body ''M'' 9 2026 0 5)
       = (Some seed_db, Err 400 ''Missing fields'')
   \<and> truthy (field (ob_body ''M'' 9 2026 4 0) ''itemId'')
   \<and> truthy (field (ob_body ''M'' 9 2026 4 0) ''startYear'')
   \<and> truthy (field (ob_body ''M'' 9 2026 4 0) ''startWeek'')
   \<and> field (ob_body ''M'' 9 2026 4 0) ''balanceQty'' = JNum 0
   \<and> put_opening_balance example_driver (Some seed_db) (ob_body ''M'' 9 2026 4 0)
       \<noteq> (Some seed_db, Err 400 ''Missing fields'')
   \<and> (\<exists>d'. put_opening_balance example_driver (Some seed_db) (ob_body ''M'' 9 2026 4 0)
               = (Some d', Ok ())
          \<and> (\<exists>r \<in> set (OpeningBalances d').
                ob_ItemId r = 9 \<and> ob_StartYear r = 2026 \<and> ob_StartWeek r = 4
                \<and> ob_BalanceQty r = 0))"
proof -
  let ?bad = "ob_body ''M'' 9 2026 0 5" and ?good = "ob_body ''M'' 9 2026 4 0"
  have t: "field ?bad ''itemType'' = JStr ''P'' \<or> field ?bad ''itemType'' = JStr ''M''"
      "field ?good ''itemType'' = JStr ''P'' \<or> field ?good ''itemType'' = JStr ''M''"
    and z: "field ?bad ''startWeek'' = JNum 0"
    and g: "truthy (field ?good ''itemId'')" "truthy (field ?good ''startYear'')"
      "truthy (field ?good ''startWeek'')" "field ?good ''balanceQty'' = JNum 0"
    and b: "int_param example_driver sql_Int (field ?good ''itemId'') = Val 9"
      "int_param example_driver sql_SmallInt (field ?good ''startYear'') = Val 2026"
      "int_param example_driver sql_TinyInt (field ?good ''startWeek'') = Val 4"
      "dec_param example_driver (JNum 0) = Val 0"
      "fits sql_Int 9" "fits sql_SmallInt 2026" "week_check 4"
    by (simp_all add: ob_body_def example_driver_def week_check_def)
  note bad = opening_balance_zero_fields [OF t(1), of example_driver "Some seed_db" seed_db 9 2026 4 0]
  note good = opening_balance_zero_fields [OF t(2), of example_driver "Some seed_db" seed_db 9 2026 4 0]
  have 1: "put_opening_balance example_driver (Some seed_db) ?bad
       = (Some seed_db, Err 400 ''Missing fields'')"
    using conjunct1 [OF bad] z by simp
  have 2: "put_opening_balance example_driver (Some seed_db) ?good
       \<noteq> (Some seed_db, Err 400 ''Missing fields'')"
    using conjunct1 [OF conjunct2 [OF good]] g by simp
  have 3: "\<exists>d'. put_opening_balance example_driver (Some seed_db) ?good = (Some d', Ok ())
          \<and> (\<exists>r \<in> set (OpeningBalances d').
                ob_ItemId r = 9 \<and> ob_StartYear r = 2026 \<and> ob_StartWeek r = 4
                \<and> ob_BalanceQty r = 0)"
    using conjunct2 [OF conjunct2 [OF good]] g b by simp
  show ?thesis
    using t(1) z 1 g 2 3 by (intro conjI)
qed

subsection \<open>PUT /api/sales-plan\<close>

lemma merge_sales_plan_result:
  assumes "merge_sales_plan products rows new = Some rows'"
  shows "rows' =
     (if sp_key new \<in> set (map sp_key rows)
      then map (\<lambda>r. if sp_key r = sp_key new then r\<lparr>sp_ShipQty := sp_ShipQty new\<rparr> else r) rows
      else rows @ [new])"
proof -
  have "(\<exists>r \<in> set rows. sp_key r = sp_key new) \<longleftrightarrow> sp_key new \<in> set (map sp_key rows)"
    by (simp add: image_iff) metis
  then show ?thesis
    using assms unfolding merge_sales_plan_def by (simp split: if_splits)
qed

lemma sp_key_update: "sp_key (r\<lparr>sp_ShipQty := s\<rparr>) = sp_key r"
  by (simp add: sp_key_def)

lemma merge_sales_plan_stored:
  assumes "merge_sales_plan products rows new = Some rows'"
  shows "(\<exists>r \<in> set rows'. sp_key r = sp_key new)
       \<and> (\<forall>r \<in> set rows'. sp_key r = sp_key new \<longrightarrow> sp_ShipQty r = sp_ShipQty new)"
proof (cases "sp_key new \<in> set (map sp_key rows)")
  case True
  let ?u = "\<lambda>r. if sp_key r = sp_key new then r\<lparr>sp_ShipQty := sp_ShipQty new\<rparr> else r"
  from True have rows': "rows' = map ?u rows"
    using merge_sales_plan_result [OF assms] by simp
  from True obtain r where r: "r \<in> set rows" "sp_key r = sp_key new"
    by auto
  have key: "sp_key (?u x) = sp_key x" for x
    by (simp add: sp_key_update)
  have "?u r \<in> set rows'" "sp_key (?u r) = sp_key new"
    using r unfolding rows' key by simp_all
  then have 1: "\<exists>r \<in> set rows'. sp_key r = sp_key new"
    by blast
  have 2: "sp_ShipQty x = sp_ShipQty new" if "x \<in> set rows'" "sp_key x = sp_key new" for x
  proof -
    from that(1) obtain y where y: "y \<in> set rows" "x = ?u y"
      unfolding rows' by auto
    with that(2) key [of y] have "sp_key y = sp_key new"
      by simp
    with y(2) show ?thesis
      by simp
  qed
  from 1 2 show ?thesis
    by blast
next
  case False
  then have "\<forall>r \<in> set rows. sp_key r \<noteq> sp_key new"
    by (simp add: image_iff) metis
  then show ?thesis
    unfolding merge_sales_plan_result [OF assms] using False by auto
qed

lemma merge_sales_plan_others:
  assumes "merge_sales_plan products rows new = Some rows'" "k \<noteq> sp_key new"
  shows "filter (\<lambda>r. sp_key r = k) rows' = filter (\<lambda>r. sp_key r = k) rows"
proof -
  have "filter (\<lambda>r. sp_key r = k)
          (map (\<lambda>r. if sp_key r = sp_key new then r\<lparr>sp_ShipQty := s\<rparr> else r) rows)
        = filter (\<lambda>r. sp_key r = k) rows" for s
    using assms(2) by (induction rows) (auto simp: sp_key_update)
  then show ?thesis
    unfolding merge_sales_plan_result [OF assms(1)] using assms(2) by simp
qed

lemma upsert_plans_append:
  "upsert_plans drv products productId rows (ps @ qs) =
     (case upsert_plans drv products productId rows ps of
        None \<Rightarrow> None
      | Some rows' \<Rightarrow> upsert_plans drv products productId rows' qs)"
  by (induction ps arbitrary: rows) (simp_all split: option.splits)

lemma upsert_plans_rows:
  "upsert_plans drv products productId rows ps = Some rows'
     \<Longrightarrow> \<forall>p \<in> set ps. plan_row drv productId p \<noteq> None"
  by (induction ps arbitrary: rows) (auto simp: upsert_plan_def split: option.splits)

lemma upsert_plans_others:
  assumes "upsert_plans drv products productId rows ps = Some rows'"
    and "\<forall>q \<in> set ps. \<forall>n. plan_row drv productId q = Some n \<longrightarrow> sp_key n \<noteq> k"
  shows "filter (\<lambda>r. sp_key r = k) rows' = filter (\<lambda>r. sp_key r = k) rows"
  using assms
proof (induction ps arbitrary: rows)
  case Nil
  then show ?case by simp
next
  case (Cons p ps)
  from Cons.prems(1) obtain new mid where
    n: "plan_row drv productId p = Some new"
    and m: "merge_sales_plan products rows new = Some mid"
    and r: "upsert_plans drv products productId mid ps = Some rows'"
    by (auto simp: upsert_plan_def split: option.splits)
  from Cons.prems(2) n have "k \<noteq> sp_key new"
    by auto
  then have "filter (\<lambda>r. sp_key r = k) mid = filter (\<lambda>r. sp_key r = k) rows"
    using merge_sales_plan_others [OF m] by simp
  moreover have "filter (\<lambda>r. sp_key r = k) rows' = filter (\<lambda>r. sp_key r = k) mid"
    using Cons.IH [OF r] Cons.prems(2) by simp
  ultimately show ?case by simp
qed

lemma upsert_plans_last_wins:
  assumes "upsert_plans drv products productId rows (ps @ p # qs) = Some rows'"
    and "plan_row drv productId p = Some new"
    and "\<forall>q \<in> set qs. \<forall>n. plan_row drv productId q = Some n \<longrightarrow> sp_key n \<noteq> sp_key new"
  shows "(\<exists>r \<in> set rows'. sp_key r = sp_key new)
       \<and> (\<forall>r \<in> set rows'. sp_key r = sp_key new \<longrightarrow> sp_ShipQty r = sp_ShipQty new)"
proof -
  from assms(1) obtain r1 where r1: "upsert_plans drv products productId rows ps = Some r1"
    and rest: "upsert_plans drv products productId r1 (p # qs) = Some rows'"
    by (auto simp: upsert_plans_append split: option.splits)
  from rest assms(2) obtain r2 where m: "merge_sales_plan products r1 new = Some r2"
    and r2: "upsert_plans drv products productId r2 qs = Some rows'"
    by (auto simp: upsert_plan_def split: option.splits)
  have same: "filter (\<lambda>r. sp_key r = sp_key new) rows' = filter (\<lambda>r. sp_key r = sp_key new) r2"
    using upsert_plans_others [OF r2 assms(3)] .
  have "{r \<in> set rows'. sp_key r = sp_key new} = {r \<in> set r2. sp_key r = sp_key new}"
    using arg_cong [OF same, of set] by simp
  then show ?thesis
    using merge_sales_plan_stored [OF m] by blast
qed

lemma merge_sales_plan_keys:
  assumes "merge_sales_plan products rows new = Some rows'"
  shows "set (map sp_key rows') = insert (sp_key new) (set (map sp_key rows))"
proof (cases "sp_key new \<in> set (map sp_key rows)")
  case True
  have "map sp_key (map (\<lambda>r. if sp_key r = k then r\<lparr>sp_ShipQty := s\<rparr> else r) rows)
        = map sp_key rows" for k s
    by (induction rows) (simp_all add: sp_key_update)
  moreover have "rows' = map (\<lambda>r. if sp_key r = sp_key new then r\<lparr>sp_ShipQty := sp_ShipQty new\<rparr> else r) rows"
    using merge_sales_plan_result [OF assms] True by simp
  ultimately have "map sp_key rows' = map sp_key rows"
    by simp
  with True show ?thesis
    by (simp only: insert_absorb)
next
  case False
  then have "rows' = rows @ [new]"
    using merge_sales_plan_result [OF assms] by simp
  then show ?thesis
    by simp
qed

lemma upsert_plans_keys:
  assumes "upsert_plans drv products productId rows ps = Some rows'"
  shows "set (map sp_key rows) \<subseteq> set (map sp_key rows')"
  using assms
proof (induction ps arbitrary: rows)
  case Nil
  then show ?case by simp
next
  case (Cons p ps)
  from Cons.prems obtain new mid where
    m: "merge_sales_plan products rows new = Some mid"
    and r: "upsert_plans drv products productId mid ps = Some rows'"
    by (auto simp: upsert_plan_def split: option.splits)
  show ?case
    using Cons.IH [OF r] merge_sales_plan_keys [OF m] by blast
qed

lemma upsert_plans_key_present:
  assumes "upsert_plans drv products productId rows ps = Some rows'"
    and "p \<in> set ps" "plan_row drv productId p = Some new"
  shows "sp_key new \<in> set (map sp_key rows')"
proof -
  from assms(2) obtain xs ys where split: "ps = xs @ p # ys"
    by (meson split_list)
  from assms(1) obtain r1 where "upsert_plans drv products productId r1 (p # ys) = Some rows'"
    unfolding split by (auto simp: upsert_plans_append split: option.splits)
  with assms(3) obtain r2 where m: "merge_sales_plan products r1 new = Some r2"
    and r2: "upsert_plans drv products productId r2 ys = Some rows'"
    by (auto simp: upsert_plan_def split: option.splits)
  show ?thesis
    using upsert_plans_keys [OF r2] merge_sales_plan_keys [OF m] by blast
qed

lemma put_sales_plan_cases:
  "put_sales_plan drv commits st body = (st', resp) \<Longrightarrow>
     (st' = st \<and> (\<exists>c m. resp = Err c m))
     \<or> (\<exists>d rows. st = Some d \<and> st' = Some (d\<lparr>SalesPlans := rows\<rparr>) \<and> resp = Ok () \<and> commits
          \<and> upsert_plans drv (Products d) (field body ''productId'') (SalesPlans d)
               (elements (field body ''plans'')) = Some rows)"
  unfolding put_sales_plan_def Let_def
  by (auto split: if_splits option.splits)

text \<open>
  C7. PUT /api/sales-plan has two outcomes only. Either the answer is an error and the
  store is the one before the request, whatever the loop had written in its transaction;
  or the answer is ok and the store differs from the one before in SalesPlans only, where
  every plan of the batch was bound to a row and has a row of its key (product, year,
  week), and a plan that no later plan of the batch overwrites has its quantity in every
  row of its key. So a batch with a plan that cannot be written is answered by the error
  alone, with nothing of it stored.
\<close>

theorem sales_plan_batch_all_or_nothing:
  assumes "put_sales_plan drv commits st body = (st', resp)"
  shows "(st' = st \<and> (\<exists>c m. resp = Err c m))
     \<or> (resp = Ok ()
        \<and> (\<exists>d rows. st = Some d \<and> st' = Some (d\<lparr>SalesPlans := rows\<rparr>)
             \<and> (\<forall>p \<in> set (elements (field body ''plans'')).
                   \<exists>new. plan_row drv (field body ''productId'') p = Some new
                     \<and> (\<exists>r \<in> set rows. sp_key r = sp_key new))
             \<and> (\<forall>ps p qs new.
                   elements (field body ''plans'') = ps @ p # qs
                   \<and> plan_row drv (field body ''productId'') p = Some new
                   \<and> (\<forall>q \<in> set qs. \<forall>n. plan_row drv (field body ''productId'') q = Some n
                                         \<longrightarrow> sp_key n \<noteq> sp_key new)
                   \<longrightarrow> (\<forall>r \<in> set rows. sp_key r = sp_key new
                                         \<longrightarrow> sp_ShipQty r = sp_ShipQty new))))"
proof -
  let ?pid = "field body ''productId''" and ?plans = "elements (field body ''plans'')"
  from put_sales_plan_cases [OF assms] show ?thesis
  proof
    assume "st' = st \<and> (\<exists>c m. resp = Err c m)"
    then show ?thesis by (rule disjI1)
  next
    assume "\<exists>d rows. st = Some d \<and> st' = Some (d\<lparr>SalesPlans := rows\<rparr>) \<and> resp = Ok () \<and> commits
          \<and> upsert_plans drv (Products d) ?pid (SalesPlans d) ?plans = Some rows"
    then obtain d rows where st: "st = Some d" "st' = Some (d\<lparr>SalesPlans := rows\<rparr>)" "resp = Ok ()"
      and u: "upsert_plans drv (Products d) ?pid (SalesPlans d) ?plans = Some rows"
      by blast
    have each: "\<exists>new. plan_row drv ?pid p = Some new \<and> (\<exists>r \<in> set rows. sp_key r = sp_key new)"
      if "p \<in> set ?plans" for p
    proof -
      from upsert_plans_rows [OF u] that obtain new where n: "plan_row drv ?pid p = Some new"
        by auto
      from upsert_plans_key_present [OF u that n] obtain r where "r \<in> set rows" "sp_key r = sp_key new"
        by auto
      with n show ?thesis
        by blast
    qed
    have last: "\<forall>r \<in> set rows. sp_key r = sp_key new \<longrightarrow> sp_ShipQty r = sp_ShipQty new"
      if "?plans = ps @ p # qs" "plan_row drv ?pid p = Some new"
        "\<forall>q \<in> set qs. \<forall>n. plan_row drv ?pid q = Some n \<longrightarrow> sp_key n \<noteq> sp_key new"
      for ps p qs new
      using upsert_plans_last_wins [OF u [unfolded that(1)] that(2) that(3)] by blast
    show ?thesis
      using st each last by (intro disjI2) blast
  qed
qed

theorem sales_plan_batch_all_or_nothing_witness:
  "put_sales_plan example_driver True (Some seed_db) bad_batch
     = (Some seed_db, Err 500 ''Failed to upsert sales plan'')
   \<and> (\<exists>d'. put_sales_plan example_driver True (Some seed_db) good_batch = (Some d', Ok ())
          \<and> (\<exists>r \<in> set (SalesPlans d'). sp_key r = (1, 2025, 48) \<and> sp_ShipQty r = 3))"
proof -
  let ?p = "plan (JNum 2025) (JNum 48) (JNum 3)" and ?q = "plan (JNum 2025) (JNum 49) JNull"
  let ?new = "\<lparr>sp_ProductId = 1, sp_PlanYear = 2025, sp_PlanWeek = 48, sp_ShipQty = 3\<rparr>"
  have bad: "put_sales_plan example_driver True (Some seed_db) bad_batch
     = (Some seed_db, Err 500 ''Failed to upsert sales plan'')"
    by code_simp
  have "snd (put_sales_plan example_driver True (Some seed_db) good_batch) = Ok ()"
    by code_simp
  then obtain st' where good: "put_sales_plan example_driver True (Some seed_db) good_batch = (st', Ok ())"
    by (cases "put_sales_plan example_driver True (Some seed_db) good_batch") simp
  have f: "field good_batch ''productId'' = JNum 1" "elements (field good_batch ''plans'') = [] @ ?p # [?q]"
    by (simp_all add: good_batch_def sp_body_def)
  have n: "plan_row example_driver (JNum 1) ?p = Some ?new"
    and l: "\<forall>x \<in> set [?q]. \<forall>n. plan_row example_driver (JNum 1) x = Some n \<longrightarrow> sp_key n \<noteq> sp_key ?new"
    by (simp_all add: plan_row_def plan_def example_driver_def qty_param_def js_or_def sp_key_def)
  from sales_plan_batch_all_or_nothing [OF good] obtain d rows where
    st': "st' = Some (d\<lparr>SalesPlans := rows\<rparr>)"
    and each: "\<forall>p \<in> set (elements (field good_batch ''plans'')).
                   \<exists>new. plan_row example_driver (field good_batch ''productId'') p = Some new
                     \<and> (\<exists>r \<in> set rows. sp_key r = sp_key new)"
    and last: "\<And>ps p qs new.
                   elements (field good_batch ''plans'') = ps @ p # qs
                   \<and> plan_row example_driver (field good_batch ''productId'') p = Some new
                   \<and> (\<forall>q \<in> set qs. \<forall>n. plan_row example_driver (field good_batch ''productId'') q = Some n
                                         \<longrightarrow> sp_key n \<noteq> sp_key new)
                   \<Longrightarrow> (\<forall>r \<in> set rows. sp_key r = sp_key new
                                         \<longrightarrow> sp_ShipQty r = sp_ShipQty new)"
    by blast
  from each have "\<exists>r \<in> set rows. sp_key r = sp_key ?new"
    unfolding f using n by simp
  then obtain r where r: "r \<in> set rows" "sp_key r = sp_key ?new"
    by blast
  have "\<forall>r \<in> set rows. sp_key r = sp_key ?new \<longrightarrow> sp_ShipQty r = sp_ShipQty ?new"
    by (rule last [of "[]" ?p "[?q]" ?new]) (use f n l in simp)
  with r have "sp_key r = (1, 2025, 48)" "sp_ShipQty r = 3"
    by (simp_all add: sp_key_def)
  with r(1) st' good bad show ?thesis
    by auto
qed

lemma plan_row_falsy_qty:
  assumes "member_of p ''year'' = member_of p' ''year''"
    and "member_of p ''week'' = member_of p' ''week''"
    and "member_of p ''qty'' = Some q" "member_of p' ''qty'' = Some q'"
    and "\<not> truthy q" "\<not> truthy q'"
  shows "plan_row drv productId p = plan_row drv productId p'"
proof -
  have "qty_param q = JNum 0" "qty_param q' = JNum 0"
    using assms(5,6) by (simp_all add: qty_param_def js_or_def)
  then show ?thesis
    using assms(1-4) by (simp add: plan_row_def split: option.splits)
qed

lemma upsert_plans_cong:
  assumes "plan_row drv productId p = plan_row drv productId p'"
  shows "upsert_plans drv products productId rows (ps @ p # qs)
       = upsert_plans drv products productId rows (ps @ p' # qs)"
  using assms
  by (cases "upsert_plans drv products productId rows ps")
     (simp_all add: upsert_plans_append upsert_plan_def)

lemma put_sales_plan_cong:
  assumes "plan_row drv (field (sp_body productId xs) ''productId'') p
         = plan_row drv (field (sp_body productId xs) ''productId'') p'"
  shows "put_sales_plan drv commits st (sp_body productId (ps @ p # qs))
       = put_sales_plan drv commits st (sp_body productId (ps @ p' # qs))"
proof -
  have f: "field (sp_body productId ys) ''productId'' = productId"
      "field (sp_body productId ys) ''plans'' = JArr ys" for ys
    by (simp_all add: sp_body_def)
  have "upsert_plans drv products productId rows (ps @ p # qs)
      = upsert_plans drv products productId rows (ps @ p' # qs)" for products rows
    using assms unfolding f by (rule upsert_plans_cong)
  then show ?thesis
    unfolding put_sales_plan_def f Let_def by (cases st) simp_all
qed

text \<open>
  C10. For a plan whose \<open>qty\<close> is falsy (missing, null, 0, "", false or NaN) the quantity
  parameter of the MERGE is the number 0, and for no plan at all is it null or undefined.
  A request is answered the same, with the same store after it, whether that plan is
  given with its falsy \<open>qty\<close>, with \<open>qty: 0\<close> or without \<open>qty\<close>. When the driver binds the
  number 0 as 0 and the request is answered ok, the row of the plan's key exists and
  every row of that key holds ShipQty 0, unless a later plan of the batch has the same
  week.
\<close>

theorem falsy_qty_stored_as_zero:
  assumes "member_of p ''qty'' = Some q" "\<not> truthy q"
  shows "qty_param q = JNum 0
     \<and> qty_param v \<noteq> JNull \<and> qty_param v \<noteq> JUndefined
     \<and> (member_of p' ''year'' = member_of p ''year'' \<and> member_of p' ''week'' = member_of p ''week''
          \<and> (member_of p' ''qty'' = Some (JNum 0) \<or> member_of p' ''qty'' = Some JUndefined)
        \<longrightarrow> put_sales_plan drv commits st (sp_body productId (ps @ p' # qs))
              = put_sales_plan drv commits st (sp_body productId (ps @ p # qs)))
     \<and> (dec_param drv (JNum 0) = Val 0
          \<and> put_sales_plan drv commits st (sp_body productId (ps @ p # qs)) = (Some d', Ok ())
          \<and> (\<forall>x \<in> set qs. \<forall>n. plan_row drv productId x = Some n
                 \<longrightarrow> (sp_PlanYear n, sp_PlanWeek n) \<noteq> (y, w))
          \<and> int_param drv sql_Int productId = Val i
          \<and> member_of p ''year'' = Some year \<and> int_param drv sql_Int year = Val y
          \<and> member_of p ''week'' = Some week \<and> int_param drv sql_Int week = Val w
        \<longrightarrow> (\<exists>r \<in> set (SalesPlans d'). sp_key r = (i, y, w))
            \<and> (\<forall>r \<in> set (SalesPlans d'). sp_key r = (i, y, w) \<longrightarrow> sp_ShipQty r = 0))"
proof (intro conjI impI)
  show "qty_param q = JNum 0"
    using assms(2) by (simp add: qty_param_def js_or_def)
  show "qty_param v \<noteq> JNull" "qty_param v \<noteq> JUndefined"
    by (auto simp: qty_param_def js_or_def)
next
  assume a: "member_of p' ''year'' = member_of p ''year'' \<and> member_of p' ''week'' = member_of p ''week''
          \<and> (member_of p' ''qty'' = Some (JNum 0) \<or> member_of p' ''qty'' = Some JUndefined)"
  then obtain q' where q': "member_of p' ''qty'' = Some q'" "\<not> truthy q'"
    by auto
  have "plan_row drv z p' = plan_row drv z p" for z
    using plan_row_falsy_qty [OF _ _ q'(1) assms(1) q'(2) assms(2)] a by simp
  then show "put_sales_plan drv commits st (sp_body productId (ps @ p' # qs))
              = put_sales_plan drv commits st (sp_body productId (ps @ p # qs))"
    by (intro put_sales_plan_cong [where xs = "[]"]) simp
next
  assume a: "dec_param drv (JNum 0) = Val 0
          \<and> put_sales_plan drv commits st (sp_body productId (ps @ p # qs)) = (Some d', Ok ())
          \<and> (\<forall>x \<in> set qs. \<forall>n. plan_row drv productId x = Some n
                 \<longrightarrow> (sp_PlanYear n, sp_PlanWeek n) \<noteq> (y, w))
          \<and> int_param drv sql_Int productId = Val i
          \<and> member_of p ''year'' = Some year \<and> int_param drv sql_Int year = Val y
          \<and> member_of p ''week'' = Some week \<and> int_param drv sql_Int week = Val w"
  let ?new = "\<lparr>sp_ProductId = i, sp_PlanYear = y, sp_PlanWeek = w, sp_ShipQty = 0\<rparr>"
  have k: "sp_key ?new = (i, y, w)"
    by (simp add: sp_key_def)
  have n: "plan_row drv productId p = Some ?new"
    using a assms by (simp add: plan_row_def qty_param_def js_or_def)
  have later: "\<forall>x \<in> set qs. \<forall>n. plan_row drv productId x = Some n \<longrightarrow> sp_key n \<noteq> sp_key ?new"
    using a unfolding k by (auto simp: sp_key_def)
  have f: "field (sp_body productId (ps @ p # qs)) ''productId'' = productId"
      "elements (field (sp_body productId (ps @ p # qs)) ''plans'') = ps @ p # qs"
    by (simp_all add: sp_body_def)
  from a have "put_sales_plan drv commits st (sp_body productId (ps @ p # qs)) = (Some d', Ok ())"
    by simp
  from put_sales_plan_cases [OF this] obtain d where
    "Some d' = Some (d\<lparr>SalesPlans := SalesPlans d'\<rparr>)"
    "upsert_plans drv (Products d) productId (SalesPlans d) (ps @ p # qs) = Some (SalesPlans d')"
    unfolding f by auto
  from upsert_plans_last_wins [OF this(2) n later]
  show "\<exists>r \<in> set (SalesPlans d'). sp_key r = (i, y, w)"
    and "\<forall>r \<in> set (SalesPlans d'). sp_key r = (i, y, w) \<longrightarrow> sp_ShipQty r = 0"
    unfolding k by simp_all
qed

theorem falsy_qty_stored_as_zero_witness:
  "member_of (plan (JNum 2025) (JNum 49) JNull) ''qty'' = Some JNull
   \<and> \<not> truthy JNull
   \<and> qty_param JNull = JNum 0
   \<and> put_sales_plan example_driver True (Some seed_db)
        (sp_body (JNum 1) ([] @ plan_without_qty (JNum 2025) (JNum 49) # []))
      = put_sales_plan example_driver True (Some seed_db)
          (sp_body (JNum 1) ([] @ plan (JNum 2025) (JNum 49) JNull # []))
   \<and> (\<exists>d'. put_sales_plan example_driver True (Some seed_db)
               (sp_body (JNum 1) ([] @ plan (JNum 2025) (JNum 49) JNull # [])) = (Some d', Ok ())
          \<and> (\<exists>r \<in> set (SalesPlans d'). sp_key r = (1, 2025, 49) \<and> sp_ShipQty r = 0))"
proof -
  let ?p = "plan (JNum 2025) (JNum 49) JNull" and ?p' = "plan_without_qty (JNum 2025) (JNum 49)"
  let ?body = "sp_body (JNum 1) ([] @ ?p # [])"
  have m: "member_of ?p ''qty'' = Some JNull" "member_of ?p ''year'' = Some (JNum 2025)"
      "member_of ?p ''week'' = Some (JNum 49)"
      "member_of ?p' ''year'' = member_of ?p ''year''" "member_of ?p' ''week'' = member_of ?p ''week''"
      "member_of ?p' ''qty'' = Some JUndefined"
    by (simp_all add: plan_def plan_without_qty_def)
  have t: "\<not> truthy JNull" by simp
  have b: "dec_param example_driver (JNum 0) = Val 0" "int_param example_driver sql_Int (JNum 1) = Val 1"
      "int_param example_driver sql_Int (JNum 2025) = Val 2025"
      "int_param example_driver sql_Int (JNum 49) = Val 49"
    by (simp_all add: example_driver_def)
  have "snd (put_sales_plan example_driver True (Some seed_db) ?body) = Ok ()"
    by code_simp
  moreover have "fst (put_sales_plan example_driver True (Some seed_db) ?body) \<noteq> None"
    by code_simp
  ultimately obtain d' where ok: "put_sales_plan example_driver True (Some seed_db) ?body = (Some d', Ok ())"
    by (cases "put_sales_plan example_driver True (Some seed_db) ?body") auto
  note T = falsy_qty_stored_as_zero [OF m(1) t, of JNull ?p' example_driver True "Some seed_db" "JNum 1"
      "[]" "[]" d' 2025 49 1 "JNum 2025" "JNum 49"]
  have 1: "qty_param JNull = JNum 0"
    using T by (rule conjunct1)
  have 2: "put_sales_plan example_driver True (Some seed_db) (sp_body (JNum 1) ([] @ ?p' # []))
      = put_sales_plan example_driver True (Some seed_db) ?body"
    using T m by blast
  have 3: "(\<exists>r \<in> set (SalesPlans d'). sp_key r = (1, 2025, 49))
            \<and> (\<forall>r \<in> set (SalesPlans d'). sp_key r = (1, 2025, 49) \<longrightarrow> sp_ShipQty r = 0)"
    using T m(2,3) b ok by simp
  then have "\<exists>r \<in> set (SalesPlans d'). sp_key r = (1, 2025, 49) \<and> sp_ShipQty r = 0"
    by blast
  with m(1) t 1 2 ok show ?thesis
    by blast
qed

subsection \<open>The balance projection\<close>

lemma next_week_greater: "w < next_week w"
  by (cases w) (simp add: next_week_def)

lemma next_week_valid: "valid_week w \<Longrightarrow> valid_week (next_week w)"
  by (simp add: valid_week_def next_week_def)

lemma prev_next_week: "valid_week w \<Longrightarrow> prev_week (next_week w) = w"
  by (cases w) (auto simp: valid_week_def next_week_def prev_week_def)

lemma next_prev_week: "valid_week w \<Longrightarrow> next_week (prev_week w) = w"
  by (cases w) (auto simp: valid_week_def next_week_def prev_week_def)

lemma next_week_least: "valid_week f \<Longrightarrow> s < f \<Longrightarrow> next_week s \<le> f"
  by (cases s; cases f) (auto simp: valid_week_def next_week_def)

lemma enumerateWeeks_Nil: "t < w \<Longrightarrow> enumerateWeeks w t = []"
  by (subst enumerateWeeks.simps) simp

lemma enumerateWeeks_Cons: "\<not> t < w \<Longrightarrow> enumerateWeeks w t = w # enumerateWeeks (next_week w) t"
  by (subst enumerateWeeks.simps) simp

lemma walk_Nil: "t < w \<Longrightarrow> walk anchor outflow inflow prev w t = []"
  by (subst walk.simps) simp

lemma walk_Cons:
  "\<not> t < w \<Longrightarrow> walk anchor outflow inflow prev w t =
     (w, step anchor outflow inflow prev w)
     # walk anchor outflow inflow (step anchor outflow inflow prev w) (next_week w) t"
  by (subst walk.simps) simp

lemma enumerateWeeks_lower: "x \<in> set (enumerateWeeks w t) \<Longrightarrow> w \<le> x"
proof (induction w t rule: enumerateWeeks.induct)
  case (1 w t)
  show ?case
  proof (cases "t < w")
    case True
    with "1.prems" show ?thesis by (simp add: enumerateWeeks_Nil)
  next
    case False
    with "1.prems" have "x = w \<or> x \<in> set (enumerateWeeks (next_week w) t)"
      by (simp add: enumerateWeeks_Cons)
    then show ?thesis
    proof
      assume "x = w"
      then show ?thesis by simp
    next
      assume "x \<in> set (enumerateWeeks (next_week w) t)"
      then have "next_week w \<le> x"
        by (rule "1.IH" [OF False])
      with next_week_greater [of w] show ?thesis
        by (meson less_le_trans less_imp_le)
    qed
  qed
qed

lemma enumerateWeeks_valid:
  "valid_week w \<Longrightarrow> x \<in> set (enumerateWeeks w t) \<Longrightarrow> valid_week x"
proof (induction w t rule: enumerateWeeks.induct)
  case (1 w t)
  show ?case
  proof (cases "t < w")
    case True
    with "1.prems" show ?thesis by (simp add: enumerateWeeks_Nil)
  next
    case False
    with "1.prems" have "x = w \<or> x \<in> set (enumerateWeeks (next_week w) t)"
      by (simp add: enumerateWeeks_Cons)
    then show ?thesis
      using "1.IH" [OF False next_week_valid] "1.prems"(1) by blast
  qed
qed

lemma enumerateWeeks_distinct: "distinct (enumerateWeeks w t)"
proof (induction w t rule: enumerateWeeks.induct)
  case (1 w t)
  show ?case
  proof (cases "t < w")
    case True
    then show ?thesis by (simp add: enumerateWeeks_Nil)
  next
    case False
    have "w \<notin> set (enumerateWeeks (next_week w) t)"
    proof
      assume "w \<in> set (enumerateWeeks (next_week w) t)"
      then have "next_week w \<le> w" by (rule enumerateWeeks_lower)
      with next_week_greater [of w] show False
        by (meson less_le_not_le)
    qed
    with "1.IH" [OF False] False show ?thesis
      by (simp add: enumerateWeeks_Cons)
  qed
qed

lemma walk_weeks: "map fst (walk anchor outflow inflow prev w t) = enumerateWeeks w t"
proof (induction anchor outflow inflow prev w t rule: walk.induct)
  case (1 anchor outflow inflow prev w t)
  show ?case
  proof (cases "t < w")
    case True
    then show ?thesis by (simp add: walk_Nil enumerateWeeks_Nil)
  next
    case False
    with "1.IH" [OF False] show ?thesis
      by (simp add: walk_Cons enumerateWeeks_Cons)
  qed
qed

lemma walk_keys: "map_of (walk anchor outflow inflow prev w t) x = Some b \<Longrightarrow> x \<in> set (enumerateWeeks w t)"
  using map_of_SomeD [of "walk anchor outflow inflow prev w t" x b] walk_weeks [of anchor outflow inflow prev w t]
  by (metis fst_conv image_eqI set_map)

lemma walk_recurrence:
  "valid_week w \<Longrightarrow> map_of (walk anchor outflow inflow prev w t) x = Some b \<Longrightarrow>
     b = step anchor outflow inflow
           (if x = w then prev else lookup (walk anchor outflow inflow prev w t) (prev_week x)) x"
proof (induction anchor outflow inflow prev w t arbitrary: b rule: walk.induct)
  case (1 anchor outflow inflow prev w t)
  let ?b0 = "step anchor outflow inflow prev w"
  let ?rest = "walk anchor outflow inflow ?b0 (next_week w) t"
  show ?case
  proof (cases "t < w")
    case True
    with "1.prems" show ?thesis by (simp add: walk_Nil)
  next
    case False
    then have unfold: "walk anchor outflow inflow prev w t = (w, ?b0) # ?rest"
      by (rule walk_Cons)
    show ?thesis
    proof (cases "x = w")
      case True
      with "1.prems"(2) show ?thesis
        unfolding unfold by simp
    next
      case x: False
      with "1.prems"(2) have r: "map_of ?rest x = Some b"
        unfolding unfold by simp
      have vx: "valid_week x"
        using enumerateWeeks_valid [OF next_week_valid [OF "1.prems"(1)] walk_keys [OF r]] .
      have ih: "b = step anchor outflow inflow
           (if x = next_week w then ?b0 else lookup ?rest (prev_week x)) x"
        using "1.IH" [OF False next_week_valid [OF "1.prems"(1)] r] .
      have pw: "prev_week x = w \<longleftrightarrow> x = next_week w"
        using prev_next_week [OF "1.prems"(1)] next_prev_week [OF vx] by metis
      have "lookup ((w, ?b0) # ?rest) (prev_week x)
          = (if x = next_week w then ?b0 else lookup ?rest (prev_week x))"
        using pw by (auto simp: lookup_def)
      with ih x show ?thesis
        unfolding unfold by simp
    qed
  qed
qed

lemma enumerateWeeks_from:
  "valid_week s \<Longrightarrow> valid_week f \<Longrightarrow> s \<le> f
     \<Longrightarrow> filter (\<lambda>w. f \<le> w) (enumerateWeeks s t) = enumerateWeeks f t"
proof (induction s t rule: enumerateWeeks.induct)
  case (1 s t)
  show ?case
  proof (cases "t < s")
    case True
    with "1.prems"(3) have "t < f"
      by (meson less_le_trans)
    with True show ?thesis
      by (simp add: enumerateWeeks_Nil)
  next
    case False
    show ?thesis
    proof (cases "s = f")
      case True
      have "\<forall>x \<in> set (enumerateWeeks f t). f \<le> x"
        using enumerateWeeks_lower by blast
      with True show ?thesis
        by (simp only: filter_True)
    next
      case ne: False
      with "1.prems"(3) have lt: "s < f"
        by (meson le_neq_trans)
      then have "\<not> f \<le> s"
        by (meson less_le_not_le)
      moreover have "filter (\<lambda>w. f \<le> w) (enumerateWeeks (next_week s) t) = enumerateWeeks f t"
        using "1.IH" [OF False next_week_valid [OF "1.prems"(1)] "1.prems"(2)
            next_week_least [OF "1.prems"(2) lt]] .
      ultimately show ?thesis
        using False by (simp add: enumerateWeeks_Cons [of t s] del: less_eq_prod_simp)
    qed
  qed
qed

lemma distinct_keys_lookup:
  "distinct (map fst xs) \<Longrightarrow> xs = map (\<lambda>w. (w, lookup xs w)) (map fst xs)"
proof (induction xs)
  case Nil
  then show ?case by simp
next
  case (Cons a xs)
  have "lookup (a # xs) w = lookup xs w" if "w \<in> set (map fst xs)" for w
  proof -
    from Cons.prems have "fst a \<notin> set (map fst xs)"
      by simp
    with that have "w \<noteq> fst a"
      by blast
    then show ?thesis
      by (cases a) (simp add: lookup_def)
  qed
  then have "map (\<lambda>w. (w, lookup (a # xs) w)) (map fst xs) = map (\<lambda>w. (w, lookup xs w)) (map fst xs)"
    by (intro map_cong) simp_all
  with Cons show ?case
    by (cases a) (simp add: lookup_def)
qed

lemma balance_lookup: "balance anchor outflow inflow f t w = lookup (series anchor outflow inflow f t) w"
  by (simp add: balance_def lookup_def)

lemma enumerateWeeks_member:
  assumes "valid_week f" "valid_week w" "f \<le> w" "w \<le> t"
  shows "w \<in> set (enumerateWeeks f t)"
proof -
  from assms(4) have "\<not> t < w"
    by (meson less_le_not_le)
  then have "w \<in> set (enumerateWeeks w t)"
    by (simp add: enumerateWeeks_Cons)
  then have "w \<in> set (filter (\<lambda>x. w \<le> x) (enumerateWeeks f t))"
    unfolding enumerateWeeks_from [OF assms(1,2,3)] .
  then show ?thesis
    by simp
qed

lemma walk_start_valid:
  assumes "valid_week f" "case anchor of None \<Rightarrow> True | Some (a, q) \<Rightarrow> valid_week a"
  shows "valid_week (walk_start anchor f)" "walk_start anchor f \<le> f"
  using assms by (auto simp: walk_start_def min_def split: option.splits simp del: less_eq_prod_simp)

lemma balance_step:
  assumes "valid_week f" "case anchor of None \<Rightarrow> True | Some (a, q) \<Rightarrow> valid_week a"
    and "valid_week w" "f \<le> w" "w \<le> t"
  shows "balance anchor outflow inflow f t w =
     step anchor outflow inflow
       (if w = walk_start anchor f then 0 else balance anchor outflow inflow f t (prev_week w)) w"
proof -
  let ?s = "walk_start anchor f"
  let ?S = "series anchor outflow inflow f t"
  note s = walk_start_valid [OF assms(1,2)]
  from s(2) assms(4) have "?s \<le> w"
    by (rule order_trans)
  then have "w \<in> set (enumerateWeeks ?s t)"
    using enumerateWeeks_member [OF s(1) assms(3) _ assms(5)] by simp
  then have "w \<in> fst ` set ?S"
    unfolding series_def using walk_weeks [of anchor outflow inflow 0 ?s t] by (metis set_map)
  then obtain b where b: "map_of ?S w = Some b"
    by (metis map_of_eq_None_iff not_Some_eq)
  from walk_recurrence [OF s(1) b [unfolded series_def]]
  have "b = step anchor outflow inflow (if w = ?s then 0 else lookup ?S (prev_week w)) w"
    unfolding series_def .
  with b show ?thesis
    by (simp add: balance_lookup lookup_def)
qed

lemma balance_cases:
  assumes "valid_week f" "valid_week w" "f \<le> w" "w \<le> t"
  shows "balance None outflow inflow f t w = 0"
    and "valid_week a \<Longrightarrow> w < a \<Longrightarrow> balance (Some (a, q)) outflow inflow f t w = 0"
    and "valid_week a \<Longrightarrow> w = a \<Longrightarrow> balance (Some (a, q)) outflow inflow f t w = q"
    and "valid_week a \<Longrightarrow> a < w \<Longrightarrow> balance (Some (a, q)) outflow inflow f t w =
           balance (Some (a, q)) outflow inflow f t (prev_week w) - outflow w + inflow w"
proof -
  show "balance None outflow inflow f t w = 0"
    using balance_step [OF assms(1) _ assms(2,3,4), of None outflow inflow] by (simp add: step_def)
next
  assume a: "valid_week a" and "w < a"
  then show "balance (Some (a, q)) outflow inflow f t w = 0"
    using balance_step [OF assms(1) _ assms(2,3,4), of "Some (a, q)" outflow inflow]
    by (simp add: step_def del: less_prod_simp)
next
  assume a: "valid_week a" and "w = a"
  then show "balance (Some (a, q)) outflow inflow f t w = q"
    using balance_step [OF assms(1) _ assms(2,3,4), of "Some (a, q)" outflow inflow]
    by (simp add: step_def del: less_prod_simp)
next
  assume a: "valid_week a" and lt: "a < w"
  have "walk_start (Some (a, q)) f \<le> a"
    by (simp add: walk_start_def del: less_eq_prod_simp)
  with lt have ne: "w \<noteq> walk_start (Some (a, q)) f" "\<not> w < a" "w \<noteq> a"
    by (meson less_le_not_le order.strict_trans1 less_irrefl)+
  show "balance (Some (a, q)) outflow inflow f t w =
           balance (Some (a, q)) outflow inflow f t (prev_week w) - outflow w + inflow w"
    using balance_step [OF assms(1) _ assms(2,3,4), of "Some (a, q)" outflow inflow] a ne
    by (simp add: step_def del: less_prod_simp)
qed

lemma project_balances:
  assumes "valid_week f" "case anchor of None \<Rightarrow> True | Some (a, q) \<Rightarrow> valid_week a"
  shows "project anchor outflow inflow f t =
     map (\<lambda>w. (w, balance anchor outflow inflow f t w)) (enumerateWeeks f t)"
proof -
  let ?s = "walk_start anchor f"
  let ?S = "series anchor outflow inflow f t"
  note s = walk_start_valid [OF assms]
  have keys: "map fst ?S = enumerateWeeks ?s t"
    unfolding series_def by (rule walk_weeks)
  then have "distinct (map fst ?S)"
    by (simp add: enumerateWeeks_distinct)
  then have S: "?S = map (\<lambda>w. (w, lookup ?S w)) (enumerateWeeks ?s t)"
    using distinct_keys_lookup [of ?S] keys by simp
  have "project anchor outflow inflow f t = filter (\<lambda>(w, b). f \<le> w) ?S"
    by (simp add: project_def)
  also have "\<dots> = filter (\<lambda>(w, b). f \<le> w) (map (\<lambda>w. (w, lookup ?S w)) (enumerateWeeks ?s t))"
    using S by simp
  also have "\<dots> = map (\<lambda>w. (w, lookup ?S w)) (filter (\<lambda>w. f \<le> w) (enumerateWeeks ?s t))"
    by (simp add: filter_map comp_def del: less_eq_prod_simp)
  also have "\<dots> = map (\<lambda>w. (w, lookup ?S w)) (enumerateWeeks f t)"
    using enumerateWeeks_from [OF s(1) assms(1) s(2)] by simp
  finally show ?thesis
    by (simp add: balance_lookup)
qed

text \<open>
  C1. For an item with an opening balance of quantity \<open>q\<close> anchored at week \<open>a\<close>, and for
  every week \<open>w\<close> of the requested range from \<open>from_wk\<close> to \<open>to_wk\<close> (week numbers
  within 1..53): the projected balance is 0 when \<open>w\<close> is before \<open>a\<close>, is \<open>q\<close> when \<open>w\<close>
  is \<open>a\<close>, whatever moved in that week, and after \<open>a\<close> it is the balance of the week before
  minus the outflow plus the inflow of \<open>w\<close>: ship and production quantity for a product,
  BOM-derived consumption and confirmed purchase quantity for a material. Without an
  opening balance it is 0. The projected series holds exactly these balances, one entry
  per week of the range.
\<close>

theorem weekly_balance_recurrence:
  assumes "valid_week from_wk" "valid_week a" "valid_week w" "from_wk \<le> w" "w \<le> to_wk"
  shows "product_balance L p None from_wk to_wk w = 0
     \<and> material_balance L p m None from_wk to_wk w = 0
     \<and> (w < a \<longrightarrow> product_balance L p (Some (a, q)) from_wk to_wk w = 0
                  \<and> material_balance L p m (Some (a, q)) from_wk to_wk w = 0)
     \<and> (w = a \<longrightarrow> product_balance L p (Some (a, q)) from_wk to_wk w = q
                  \<and> material_balance L p m (Some (a, q)) from_wk to_wk w = q)
     \<and> (a < w \<longrightarrow>
           product_balance L p (Some (a, q)) from_wk to_wk w
             = product_balance L p (Some (a, q)) from_wk to_wk (prev_week w)
               - shipQty L w + productionQty L p w
         \<and> material_balance L p m (Some (a, q)) from_wk to_wk w
             = material_balance L p m (Some (a, q)) from_wk to_wk (prev_week w)
               - bomDerivedConsumption L p m w + confirmedPurchaseQty L m w)
     \<and> product_projection L p (Some (a, q)) from_wk to_wk
         = map (\<lambda>w. (w, product_balance L p (Some (a, q)) from_wk to_wk w))
             (enumerateWeeks from_wk to_wk)
     \<and> material_projection L p m (Some (a, q)) from_wk to_wk
         = map (\<lambda>w. (w, material_balance L p m (Some (a, q)) from_wk to_wk w))
             (enumerateWeeks from_wk to_wk)"
  unfolding product_balance_def material_balance_def product_projection_def material_projection_def
  using balance_cases [OF assms(1,3,4,5)] assms(2) project_balances [OF assms(1), of "Some (a, q)"]
  by (simp del: less_prod_simp less_eq_prod_simp)

text \<open>The scenarios of section 8 of the spec, on the seed rows.\<close>

lemma scenario_product:
  "product_projection seed_ledger 1 (Some ((2025, 47), 20)) (2025, 47) (2025, 50)
     = [((2025, 47), 20), ((2025, 48), 25), ((2025, 49), 30), ((2025, 50), 30)]"
  by code_simp

lemma scenario_material:
  "material_projection seed_ledger 1 1 (Some ((2025, 47), 10)) (2025, 46) (2025, 50)
     = [((2025, 46), 0), ((2025, 47), 10), ((2025, 48), 5), ((2025, 49), 5), ((2025, 50), 5)]"
  by code_simp

lemma scenario_slice:
  "product_projection seed_ledger 1 (Some ((2025, 47), 20)) (2025, 48) (2025, 49)
     = [((2025, 48), 25), ((2025, 49), 30)]"
  by code_simp

lemma scenario_no_opening:
  "product_projection seed_ledger 1 None (2025, 52) (2026, 1)
     = [((2025, 52), 0), ((2025, 53), 0), ((2026, 1), 0)]"
  by code_simp

theorem weekly_balance_recurrence_witness:
  "valid_week (2025, 48) \<and> valid_week (2025, 47) \<and> valid_week (2025, 49)
   \<and> ((2025, 48) :: week_key) \<le> (2025, 49) \<and> ((2025, 49) :: week_key) \<le> (2025, 50)
   \<and> ((2025, 47) :: week_key) < (2025, 49)
   \<and> product_balance seed_ledger 1 (Some ((2025, 47), 20)) (2025, 48) (2025, 50) (2025, 49) = 30
   \<and> material_balance seed_ledger 1 1 (Some ((2025, 47), 10)) (2025, 48) (2025, 50) (2025, 49) = 5"
proof -
  have h: "valid_week (2025, 48)" "valid_week (2025, 47)" "valid_week (2025, 49)"
      "((2025, 48) :: week_key) \<le> (2025, 49)" "((2025, 49) :: week_key) \<le> (2025, 50)"
    and lt: "((2025, 47) :: week_key) < (2025, 49)"
    by (simp_all add: valid_week_def)
  have p: "product_balance seed_ledger 1 (Some ((2025, 47), 20)) (2025, 48) (2025, 50)
             (prev_week (2025, 49)) = 25"
      "shipQty seed_ledger (2025, 49) = 0" "productionQty seed_ledger 1 (2025, 49) = 5"
    and m: "material_balance seed_ledger 1 1 (Some ((2025, 47), 10)) (2025, 48) (2025, 50)
             (prev_week (2025, 49)) = 5"
      "bomDerivedConsumption seed_ledger 1 1 (2025, 49) = 5"
      "confirmedPurchaseQty seed_ledger 1 (2025, 49) = 5"
    by code_simp+
  from weekly_balance_recurrence [OF h, of seed_ledger 1 1 20] lt
  have "product_balance seed_ledger 1 (Some ((2025, 47), 20)) (2025, 48) (2025, 50) (2025, 49)
      = product_balance seed_ledger 1 (Some ((2025, 47), 20)) (2025, 48) (2025, 50) (prev_week (2025, 49))
        - shipQty seed_ledger (2025, 49) + productionQty seed_ledger 1 (2025, 49)"
    by blast
  then have 1: "product_balance seed_ledger 1 (Some ((2025, 47), 20)) (2025, 48) (2025, 50) (2025, 49) = 30"
    unfolding p by simp
  from weekly_balance_recurrence [OF h, of seed_ledger 1 1 10] lt
  have "material_balance seed_ledger 1 1 (Some ((2025, 47), 10)) (2025, 48) (2025, 50) (2025, 49)
      = material_balance seed_ledger 1 1 (Some ((2025, 47), 10)) (2025, 48) (2025, 50) (prev_week (2025, 49))
        - bomDerivedConsumption seed_ledger 1 1 (2025, 49) + confirmedPurchaseQty seed_ledger 1 (2025, 49)"
    by blast
  then have 2: "material_balance seed_ledger 1 1 (Some ((2025, 47), 10)) (2025, 48) (2025, 50) (2025, 49) = 5"
    unfolding m by simp
  from h lt 1 2 show ?thesis
    by (intro conjI)
qed

subsection \<open>GET /api/purchase in both server files\<close>

lemma upper_char_idem: "upper_char (upper_char c) = upper_char c"
  by (auto simp: upper_char_def split: option.splits if_splits)

lemma upper_idem: "upper (upper s) = upper s"
  by (simp add: upper_def upper_char_idem)

lemma upper_CONFIRM: "upper ''CONFIRM'' = ''CONFIRM''"
  by (simp add: upper_def upper_char_def)


lemma sql_eq_upper_CONFIRM: "sql_eq (upper s) ''CONFIRM'' \<longleftrightarrow> upper s = ''CONFIRM''"
  by (simp only: sql_eq_def upper_CONFIRM upper_idem)







end
